theory Spec2Isabelle
  imports Main "HOL-Library.Word" "HOL-Library.Sublist"
begin

unbundle bit_operations_syntax

section \<open>Data model of the GLSL linker (src/mesalib/src/glsl/linker.cpp)\<close>

text \<open>
  \<open>glsl_type\<close> objects are interned by the type system (one object per distinct type), so
  the pointer comparisons \<open>var->type != existing->type\<close> of the linker are comparisons of
  the type's structure. The linker reads \<open>is_array()\<close>, \<open>fields.array\<close> (the element type)
  and \<open>length\<close> (0 for an implicitly sized array).
\<close>

datatype glsl_type =
    glsl_basic string
  | glsl_array glsl_type nat

fun is_array :: "glsl_type \<Rightarrow> bool" where
  "is_array (glsl_array e n) = True"
| "is_array (glsl_basic s) = False"

fun fields_array :: "glsl_type \<Rightarrow> glsl_type option" where
  "fields_array (glsl_array e n) = Some e"
| "fields_array (glsl_basic s) = None"

text \<open>The linker reads \<open>length\<close> of array types only; elsewhere the model reads 0.\<close>

fun type_length :: "glsl_type \<Rightarrow> nat" where
  "type_length (glsl_array e n) = n"
| "type_length (glsl_basic s) = 0"

datatype ir_variable_mode =
    ir_var_auto
  | ir_var_uniform
  | ir_var_shader_in
  | ir_var_shader_out
  | ir_var_function_in
  | ir_var_function_out
  | ir_var_function_inout
  | ir_var_const_in
  | ir_var_system_value
  | ir_var_temporary

datatype ir_depth_layout =
    ir_depth_layout_none
  | ir_depth_layout_any
  | ir_depth_layout_greater
  | ir_depth_layout_less
  | ir_depth_layout_unchanged

datatype ir_constant = IrConstant glsl_type "int list"

record ir_variable =
  name :: string
  var_type :: glsl_type
  mode :: ir_variable_mode
  explicit_location :: bool
  location :: int
  explicit_binding :: bool
  binding :: int
  atomic_offset :: nat
  depth_layout :: ir_depth_layout
  used :: bool
  constant_initializer :: "ir_constant option"
  has_initializer :: bool
  invariant :: bool
  centroid :: bool
  index :: int
  is_unmatched_generic_inout :: bool
  location_frac :: nat

text \<open>
  Dereference chains and expressions. A dereference points to an \<open>ir_variable\<close>; the
  visitors of the linker read only the name of the variable behind the pointer, so the
  node carries that name.
\<close>

datatype ir_rvalue =
    ir_dereference_variable string
  | ir_dereference_array ir_rvalue ir_rvalue
  | ir_dereference_record ir_rvalue string
  | ir_swizzle ir_rvalue
  | ir_expression "ir_rvalue list"
  | ir_constant_value ir_constant

text \<open>
  The instruction tree. An \<open>ir_call\<close> carries the formal parameters of its callee
  (\<open>ir->callee->parameters\<close>), its actual parameters and the optional \<open>return_deref\<close>.
\<close>

datatype ir_instruction =
    Variable ir_variable
  | Function ir_function
  | ir_assignment ir_rvalue ir_rvalue "ir_rvalue option"
  | ir_call "ir_variable list" "ir_rvalue list" "ir_rvalue option"
  | ir_if ir_rvalue "ir_instruction list" "ir_instruction list"
  | ir_loop "ir_instruction list"
  | ir_return "ir_rvalue option"
  | ir_discard
  | ir_emit_vertex
  | ir_end_primitive
and ir_function =
    IrFunction string "ir_function_signature list"
and ir_function_signature =
    IrSignature "ir_variable list" bool bool "ir_instruction list"

fun as_variable :: "ir_instruction \<Rightarrow> ir_variable option" where
  "as_variable (Variable v) = Some v"
| "as_variable i = None"

fun as_function :: "ir_instruction \<Rightarrow> ir_function option" where
  "as_function (Function f) = Some f"
| "as_function i = None"

fun function_name :: "ir_function \<Rightarrow> string" where
  "function_name (IrFunction n sigs) = n"

fun signatures :: "ir_function \<Rightarrow> ir_function_signature list" where
  "signatures (IrFunction n sigs) = sigs"

fun parameters :: "ir_function_signature \<Rightarrow> ir_variable list" where
  "parameters (IrSignature ps d b body) = ps"

fun is_defined :: "ir_function_signature \<Rightarrow> bool" where
  "is_defined (IrSignature ps d b body) = d"

fun is_builtin :: "ir_function_signature \<Rightarrow> bool" where
  "is_builtin (IrSignature ps d b body) = b"

record glsl_symbol_table =
  get_variable :: "string \<rightharpoonup> ir_variable"
  get_function :: "string \<rightharpoonup> ir_function"

datatype gl_shader_type = MESA_SHADER_VERTEX | MESA_SHADER_GEOMETRY | MESA_SHADER_FRAGMENT

record gl_shader =
  Type :: gl_shader_type
  ir :: "ir_instruction list"
  symbols :: glsl_symbol_table

record gl_shader_program =
  InfoLog :: string
  LinkStatus :: bool
  Version :: nat
  IsES :: bool
  Vert_UsesClipDistance :: bool
  Vert_ClipDistanceArraySize :: nat
  LinkedShaders :: "gl_shader_type \<Rightarrow> gl_shader option"
  AttributeBindings :: "string \<rightharpoonup> 32 word"
  FragDataBindings :: "string \<rightharpoonup> 32 word"
  FragDataIndexBindings :: "string \<rightharpoonup> 32 word"

text \<open>
  The entries of the array \<open>to_assign\<close> of \<open>assign_attribute_or_color_locations\<close>
  (lines 1635-1648). The pointer \<open>var\<close> (here \<open>attr_var\<close>) is the position of the variable in the
  instruction list of the shader.
\<close>

record temp_attr =
  attr_slots :: "32 word"
  attr_var :: nat

text \<open>
  Routines and constants the linker uses that are defined in other files of Mesa
  (\<open>glsl_types.cpp\<close>, \<open>ir.cpp\<close>, \<open>mtypes.h\<close>, \<open>link_interface_blocks.cpp\<close>,
  \<open>link_uniform_blocks.cpp\<close>, the C library) are parameters of the model, so every theorem
  holds for any implementation of them. The two routines for blocks are known to the model
  by what they do to the program (its log and status). \<open>link_intrastage_remainder\<close> stands for lines 1355-1461 of
  \<open>link_intrastage_shaders\<close> (finding \<open>main\<close>, cloning, resolving calls, sizing arrays),
  which no statement below depends on.
\<close>

record collaborators =
  mode_string :: "ir_variable \<Rightarrow> string"
  type_name :: "glsl_type \<Rightarrow> string"
  contains_atomic :: "glsl_type \<Rightarrow> bool"
  has_value :: "ir_constant \<Rightarrow> ir_constant \<Rightarrow> bool"
  count_attribute_slots :: "glsl_type \<Rightarrow> 32 word"
  VERT_ATTRIB_GENERIC0 :: "32 word"
  FRAG_RESULT_DATA0 :: "32 word"
  qsort :: "(temp_attr \<Rightarrow> temp_attr \<Rightarrow> int) \<Rightarrow> temp_attr list \<Rightarrow> temp_attr list"
  validate_intrastage_interface_blocks ::
    "gl_shader_program \<Rightarrow> gl_shader list \<Rightarrow> gl_shader_program"
  link_uniform_blocks ::
    "gl_shader_program \<Rightarrow> gl_shader list \<Rightarrow> gl_shader_program"
  link_intrastage_remainder ::
    "gl_shader_program \<Rightarrow> gl_shader list \<Rightarrow> gl_shader_program \<times> gl_shader option"

text \<open>
  A statement sequence that can leave its function early: \<open>Return\<close> is a \<open>return\<close>
  statement, \<open>Continue\<close> falls through to the next statement.
\<close>

datatype 'a flow = Continue 'a | Return 'a

fun and_then :: "'a flow \<Rightarrow> ('a \<Rightarrow> 'a flow) \<Rightarrow> 'a flow" where
  "and_then (Continue s) f = f s"
| "and_then (Return s) f = Return s"

fun flow_state :: "'a flow \<Rightarrow> 'a" where
  "flow_state (Continue s) = s"
| "flow_state (Return s) = s"

fun returned :: "'a flow \<Rightarrow> bool" where
  "returned (Continue s) = False"
| "returned (Return s) = True"

datatype fault = AssertionFailed | OutOfBounds

section \<open>Formatting of diagnostics\<close>

text \<open>The conversions \<open>%u\<close> and \<open>%d\<close> of \<open>printf\<close>.\<close>

function string_of_nat :: "nat \<Rightarrow> string" where
  "string_of_nat n =
     (if n < 10 then [''0123456789'' ! n]
      else string_of_nat (n div 10) @ [''0123456789'' ! (n mod 10)])"
  by pat_completeness auto
termination
  by (relation "measure id") auto

declare string_of_nat.simps [simp del]

definition string_of_int :: "int \<Rightarrow> string" where
  "string_of_int i = (if i < 0 then ''-'' @ string_of_nat (nat (- i)) else string_of_nat (nat i))"

section \<open>The diagnostic log: linker_error and linker_warning (lines 282-306)\<close>

text \<open>The argument \<open>msg\<close> is the message after \<open>printf\<close> formatting.\<close>

definition linker_error :: "gl_shader_program \<Rightarrow> string \<Rightarrow> gl_shader_program" where
  "linker_error prog msg = prog\<lparr>InfoLog := InfoLog prog @ ''error: '' @ msg, LinkStatus := False\<rparr>"

definition linker_warning :: "gl_shader_program \<Rightarrow> string \<Rightarrow> gl_shader_program" where
  "linker_warning prog msg = prog\<lparr>InfoLog := InfoLog prog @ ''error: '' @ msg\<rparr>"

text \<open>
  The reset at the start of \<open>link_shaders\<close> (lines 1991-1996), as far as the log and the
  status are concerned.
\<close>

definition link_shaders_reset :: "gl_shader_program \<Rightarrow> gl_shader_program" where
  "link_shaders_reset prog = prog\<lparr>LinkStatus := True, InfoLog := ''''\<rparr>"

text \<open>
  Every write of \<open>linker.cpp\<close> to \<open>InfoLog\<close> or \<open>LinkStatus\<close> after the reset goes through
  one of the two logging routines. A link invocation therefore acts on the log and the
  status as a sequence of logging events.
\<close>

datatype linker_event = Error string | Warning string

fun log_event :: "gl_shader_program \<Rightarrow> linker_event \<Rightarrow> gl_shader_program" where
  "log_event prog (Error msg) = linker_error prog msg"
| "log_event prog (Warning msg) = linker_warning prog msg"

definition log_events :: "gl_shader_program \<Rightarrow> linker_event list \<Rightarrow> gl_shader_program" where
  "log_events prog evs = foldl log_event prog evs"

text \<open>
  The log and the status of \<open>prog'\<close> are those of \<open>prog\<close> after some sequence of logging
  events.
\<close>

definition logs_events :: "gl_shader_program \<Rightarrow> gl_shader_program \<Rightarrow> bool" where
  "logs_events prog prog' \<longleftrightarrow>
     (\<exists>evs. InfoLog prog' = InfoLog (log_events prog evs)
            \<and> LinkStatus prog' = LinkStatus (log_events prog evs))"

text \<open>The log holds an error entry when the text \<open>error: \<close> occurs in it.\<close>

definition has_error_entry :: "string \<Rightarrow> bool" where
  "has_error_entry log = sublist ''error: '' log"

section \<open>find_available_slots (lines 1554-1574)\<close>

text \<open>
  \<open>unsigned\<close> and \<open>int\<close> are 32 bits wide. \<open>max_bit_to_test\<close> is the difference
  \<open>8 * sizeof(used_mask) - needed_count\<close>, computed in unsigned arithmetic and converted to
  \<open>int\<close> (two's complement). A shift by the width or more is undefined in C++; the model
  shifts with \<open>push_bit\<close>, which yields 0 there. \<open>used_mask\<close> is passed by value: the
  function has no way to change the caller's mask, and the model returns the slot only.
\<close>

function find_available_slots_loop :: "32 word \<Rightarrow> int \<Rightarrow> 32 word \<Rightarrow> int \<Rightarrow> int" where
  "find_available_slots_loop used_mask max_bit_to_test needed_mask i =
     (if i \<le> max_bit_to_test then
        (if (needed_mask AND NOT used_mask) = needed_mask then i
         else find_available_slots_loop used_mask max_bit_to_test (push_bit 1 needed_mask) (i + 1))
      else - 1)"
  by pat_completeness auto
termination
  by (relation "measure (\<lambda>(u, m, nm, i). nat (m + 1 - i))") auto

declare find_available_slots_loop.simps [simp del]

definition find_available_slots :: "32 word \<Rightarrow> 32 word \<Rightarrow> int" where
  "find_available_slots used_mask needed_count =
     (let needed_mask = push_bit (unat needed_count) (1 :: 32 word) - 1;
          max_bit_to_test = sint (32 - needed_count)
      in if needed_count = 0 \<or> max_bit_to_test < 0 \<or> max_bit_to_test > 32 then - 1
         else find_available_slots_loop used_mask max_bit_to_test needed_mask 0)"

section \<open>Visitors (lines 90-180)\<close>

text \<open>
  Modelled from the spec: \<open>ir_rvalue::variable_referenced\<close> is declared in \<open>ir.h\<close>, which is
  not among the sources. It yields the variable at the root of a dereference chain (through
  array and record dereferences and swizzles) and no variable for any other rvalue.
\<close>

fun variable_referenced :: "ir_rvalue \<Rightarrow> string option" where
  "variable_referenced (ir_dereference_variable v) = Some v"
| "variable_referenced (ir_dereference_array a i) = variable_referenced a"
| "variable_referenced (ir_dereference_record r f) = variable_referenced r"
| "variable_referenced (ir_swizzle v) = variable_referenced v"
| "variable_referenced (ir_expression ops) = None"
| "variable_referenced (ir_constant_value c) = None"

text \<open>
  \<open>find_assignment_visitor::visit_enter(ir_assignment *)\<close>: true when the visitor sets
  \<open>found\<close>. The front end builds assignments whose left-hand side is rooted at a variable;
  a left-hand side without one matches no name.
\<close>

definition visit_enter_assignment :: "string \<Rightarrow> ir_rvalue \<Rightarrow> bool" where
  "visit_enter_assignment nm lhs =
     (case variable_referenced lhs of Some var \<Rightarrow> nm = var | None \<Rightarrow> False)"

text \<open>
  The loop of \<open>visit_enter(ir_call *)\<close> over the actual parameters, with \<open>sig_iter\<close>
  advancing over the formal parameters in step. Valid IR has as many formal as actual
  parameters; the loop of the model ends where the formal parameters end.
\<close>

fun call_parameters_write :: "string \<Rightarrow> ir_variable list \<Rightarrow> ir_rvalue list \<Rightarrow> bool" where
  "call_parameters_write nm sig_params [] = False"
| "call_parameters_write nm [] (param_rval # rest) = False"
| "call_parameters_write nm (sig_param # sig_rest) (param_rval # rest) =
     (if mode sig_param = ir_var_function_out \<or> mode sig_param = ir_var_function_inout then
        (case variable_referenced param_rval of
           Some var \<Rightarrow> if nm = var then True else call_parameters_write nm sig_rest rest
         | None \<Rightarrow> call_parameters_write nm sig_rest rest)
      else call_parameters_write nm sig_rest rest)"

definition visit_enter_call ::
  "string \<Rightarrow> ir_variable list \<Rightarrow> ir_rvalue list \<Rightarrow> ir_rvalue option \<Rightarrow> bool" where
  "visit_enter_call nm callee_parameters actual_parameters return_deref =
     (if call_parameters_write nm callee_parameters actual_parameters then True
      else (case return_deref of
              Some d \<Rightarrow> (case variable_referenced d of Some var \<Rightarrow> nm = var | None \<Rightarrow> False)
            | None \<Rightarrow> False))"

text \<open>
  Modelled from the spec: \<open>ir_hierarchical_visitor::run\<close> and the \<open>accept\<close> methods are
  defined in \<open>ir_hv_accept.cpp\<close>, which is not among the sources. The traversal visits the
  instructions of a list in order and descends into the signatures and bodies of functions,
  the branches of conditionals and the bodies of loops; \<open>visit_stop\<close> ends it. The result
  is the final value of \<open>found\<close>.
\<close>

fun find_assignment :: "string \<Rightarrow> ir_instruction \<Rightarrow> bool"
  and find_assignment_function :: "string \<Rightarrow> ir_function \<Rightarrow> bool"
  and find_assignment_signature :: "string \<Rightarrow> ir_function_signature \<Rightarrow> bool"
  and find_assignment_signatures :: "string \<Rightarrow> ir_function_signature list \<Rightarrow> bool"
  and find_assignment_list :: "string \<Rightarrow> ir_instruction list \<Rightarrow> bool" where
  "find_assignment nm (Variable v) = False"
| "find_assignment nm (Function f) = find_assignment_function nm f"
| "find_assignment nm (ir_assignment lhs rhs cond) = visit_enter_assignment nm lhs"
| "find_assignment nm (ir_call ps as rd) = visit_enter_call nm ps as rd"
| "find_assignment nm (ir_if c t e) = (find_assignment_list nm t \<or> find_assignment_list nm e)"
| "find_assignment nm (ir_loop b) = find_assignment_list nm b"
| "find_assignment nm (ir_return v) = False"
| "find_assignment nm ir_discard = False"
| "find_assignment nm ir_emit_vertex = False"
| "find_assignment nm ir_end_primitive = False"
| "find_assignment_function nm (IrFunction n sigs) = find_assignment_signatures nm sigs"
| "find_assignment_signature nm (IrSignature ps d b body) = find_assignment_list nm body"
| "find_assignment_signatures nm [] = False"
| "find_assignment_signatures nm (s # ss) =
     (find_assignment_signature nm s \<or> find_assignment_signatures nm ss)"
| "find_assignment_list nm [] = False"
| "find_assignment_list nm (i # is) = (find_assignment nm i \<or> find_assignment_list nm is)"

definition find_assignment_visitor :: "string \<Rightarrow> ir_instruction list \<Rightarrow> bool" where
  "find_assignment_visitor nm instructions = find_assignment_list nm instructions"

text \<open>\<open>find_deref_visitor\<close>: a dereference of the named variable anywhere in the tree.\<close>

fun find_deref_rvalue :: "string \<Rightarrow> ir_rvalue \<Rightarrow> bool"
  and find_deref_rvalues :: "string \<Rightarrow> ir_rvalue list \<Rightarrow> bool" where
  "find_deref_rvalue nm (ir_dereference_variable v) = (nm = v)"
| "find_deref_rvalue nm (ir_dereference_array a i) =
     (find_deref_rvalue nm a \<or> find_deref_rvalue nm i)"
| "find_deref_rvalue nm (ir_dereference_record r f) = find_deref_rvalue nm r"
| "find_deref_rvalue nm (ir_swizzle v) = find_deref_rvalue nm v"
| "find_deref_rvalue nm (ir_expression ops) = find_deref_rvalues nm ops"
| "find_deref_rvalue nm (ir_constant_value c) = False"
| "find_deref_rvalues nm [] = False"
| "find_deref_rvalues nm (r # rs) = (find_deref_rvalue nm r \<or> find_deref_rvalues nm rs)"

fun find_deref_option :: "string \<Rightarrow> ir_rvalue option \<Rightarrow> bool" where
  "find_deref_option nm None = False"
| "find_deref_option nm (Some r) = find_deref_rvalue nm r"

fun find_deref :: "string \<Rightarrow> ir_instruction \<Rightarrow> bool"
  and find_deref_function :: "string \<Rightarrow> ir_function \<Rightarrow> bool"
  and find_deref_signature :: "string \<Rightarrow> ir_function_signature \<Rightarrow> bool"
  and find_deref_signatures :: "string \<Rightarrow> ir_function_signature list \<Rightarrow> bool"
  and find_deref_list :: "string \<Rightarrow> ir_instruction list \<Rightarrow> bool" where
  "find_deref nm (Variable v) = False"
| "find_deref nm (Function f) = find_deref_function nm f"
| "find_deref nm (ir_assignment lhs rhs cond) =
     (find_deref_rvalue nm lhs \<or> find_deref_rvalue nm rhs \<or> find_deref_option nm cond)"
| "find_deref nm (ir_call ps as rd) = (find_deref_option nm rd \<or> find_deref_rvalues nm as)"
| "find_deref nm (ir_if c t e) =
     (find_deref_rvalue nm c \<or> find_deref_list nm t \<or> find_deref_list nm e)"
| "find_deref nm (ir_loop b) = find_deref_list nm b"
| "find_deref nm (ir_return v) = find_deref_option nm v"
| "find_deref nm ir_discard = False"
| "find_deref nm ir_emit_vertex = False"
| "find_deref nm ir_end_primitive = False"
| "find_deref_function nm (IrFunction n sigs) = find_deref_signatures nm sigs"
| "find_deref_signature nm (IrSignature ps d b body) = find_deref_list nm body"
| "find_deref_signatures nm [] = False"
| "find_deref_signatures nm (s # ss) =
     (find_deref_signature nm s \<or> find_deref_signatures nm ss)"
| "find_deref_list nm [] = False"
| "find_deref_list nm (i # is) = (find_deref nm i \<or> find_deref_list nm is)"

definition find_deref_visitor :: "string \<Rightarrow> ir_instruction list \<Rightarrow> bool" where
  "find_deref_visitor nm instructions = find_deref_list nm instructions"

section \<open>Stage validation (lines 416-506)\<close>

text \<open>
  \<open>analyze_clip_usage\<close> writes through the pointers \<open>UsesClipDistance\<close> and
  \<open>ClipDistanceArraySize\<close>; the model takes the old value of the first and returns the
  program with the new values of both.
\<close>

definition analyze_clip_usage ::
  "string \<Rightarrow> gl_shader_program \<Rightarrow> gl_shader \<Rightarrow> bool \<Rightarrow> gl_shader_program \<times> bool \<times> nat" where
  "analyze_clip_usage shader_type prog shader UsesClipDistance =
     (if \<not> IsES prog \<and> Version prog \<ge> 130 then
        (let clip_vertex = find_assignment_visitor ''gl_ClipVertex'' (ir shader);
             clip_distance = find_assignment_visitor ''gl_ClipDistance'' (ir shader)
         in if clip_vertex \<and> clip_distance then
              (linker_error prog
                 (shader_type @ '' shader writes to both `gl_ClipVertex' and `gl_ClipDistance'\<newline>''),
               UsesClipDistance, 0)
            else
              (prog, clip_distance,
               (case get_variable (symbols shader) ''gl_ClipDistance'' of
                  Some clip_distance_var \<Rightarrow> type_length (var_type clip_distance_var)
                | None \<Rightarrow> 0)))
      else (prog, False, 0))"

definition validate_vertex_shader_executable ::
  "gl_shader_program \<Rightarrow> gl_shader option \<Rightarrow> gl_shader_program" where
  "validate_vertex_shader_executable prog shader =
     (case shader of
        None \<Rightarrow> prog
      | Some sh \<Rightarrow>
          if Version prog < (if IsES prog then 300 else 140)
             \<and> \<not> find_assignment_visitor ''gl_Position'' (ir sh)
          then linker_error prog ''vertex shader does not write to `gl_Position'\<newline>''
          else
            (case analyze_clip_usage ''vertex'' prog sh (Vert_UsesClipDistance prog) of
               (prog', uses, array_size) \<Rightarrow>
                 prog'\<lparr>Vert_UsesClipDistance := uses,
                       Vert_ClipDistanceArraySize := array_size\<rparr>))"

section \<open>cross_validate_globals (lines 563-772)\<close>

text \<open>
  The scratch symbol table \<open>variables\<close> maps a name to the first declaration seen with it.
  The table holds pointers, and the linker updates the first-seen declaration through
  them; an entry of the model is the current state of that declaration. Each step below is
  one block of the branch \<open>existing != NULL\<close>, in the order of the source; its state is the
  program and the declaration \<open>existing\<close>.
\<close>

type_synonym pair_state = "gl_shader_program \<times> ir_variable"

definition validate_type :: "collaborators \<Rightarrow> ir_variable \<Rightarrow> pair_state \<Rightarrow> pair_state flow" where
  "validate_type X var = (\<lambda>(prog, existing).
     if var_type var \<noteq> var_type existing then
       (if is_array (var_type var)
           \<and> is_array (var_type existing)
           \<and> fields_array (var_type var) = fields_array (var_type existing)
           \<and> (type_length (var_type var) = 0 \<or> type_length (var_type existing) = 0)
        then Continue (prog, if type_length (var_type var) \<noteq> 0
                             then existing\<lparr>var_type := var_type var\<rparr> else existing)
        else Return (linker_error prog
                       (mode_string X var @ '' `'' @ name var @ ''' declared as type `''
                        @ type_name X (var_type var) @ ''' and type `''
                        @ type_name X (var_type existing) @ '''\<newline>''), existing))
     else Continue (prog, existing))"

definition validate_location :: "collaborators \<Rightarrow> ir_variable \<Rightarrow> pair_state \<Rightarrow> pair_state flow" where
  "validate_location X var = (\<lambda>(prog, existing).
     if explicit_location var then
       (if explicit_location existing \<and> location var \<noteq> location existing
        then Return (linker_error prog
                       (''explicit locations for '' @ mode_string X var @ '' `'' @ name var
                        @ ''' have differing values\<newline>''), existing)
        else Continue (prog, existing\<lparr>location := location var, explicit_location := True\<rparr>))
     else Continue (prog, existing))"

definition validate_binding :: "collaborators \<Rightarrow> ir_variable \<Rightarrow> pair_state \<Rightarrow> pair_state flow" where
  "validate_binding X var = (\<lambda>(prog, existing).
     if explicit_binding var then
       (if explicit_binding existing \<and> binding var \<noteq> binding existing
        then Return (linker_error prog
                       (''explicit bindings for '' @ mode_string X var @ '' `'' @ name var
                        @ ''' have differing values\<newline>''), existing)
        else Continue (prog, existing\<lparr>binding := binding var, explicit_binding := True\<rparr>))
     else Continue (prog, existing))"

definition validate_atomic_offset ::
  "collaborators \<Rightarrow> ir_variable \<Rightarrow> pair_state \<Rightarrow> pair_state flow" where
  "validate_atomic_offset X var = (\<lambda>(prog, existing).
     if contains_atomic X (var_type var) \<and> atomic_offset var \<noteq> atomic_offset existing
     then Return (linker_error prog
                    (''offset specifications for '' @ mode_string X var @ '' `'' @ name var
                     @ ''' have differing values\<newline>''), existing)
     else Continue (prog, existing))"

definition validate_frag_depth :: "ir_variable \<Rightarrow> pair_state \<Rightarrow> pair_state flow" where
  "validate_frag_depth var = (\<lambda>(prog, existing).
     if name var = ''gl_FragDepth'' then
       (let layout_declared = (depth_layout var \<noteq> ir_depth_layout_none);
            layout_differs = (depth_layout var \<noteq> depth_layout existing);
            prog1 = (if layout_declared \<and> layout_differs
                     then linker_error prog
                            (''All redeclarations of gl_FragDepth in all ''
                             @ ''fragment shaders in a single program must have ''
                             @ ''the same set of qualifiers.'')
                     else prog);
            prog2 = (if used var \<and> layout_differs
                     then linker_error prog1
                            (''If gl_FragDepth is redeclared with a layout ''
                             @ ''qualifier in any fragment shader, it must be ''
                             @ ''redeclared with the same layout qualifier in ''
                             @ ''all fragment shaders that have assignments to ''
                             @ ''gl_FragDepth'')
                     else prog1)
        in Continue (prog2, existing))
     else Continue (prog, existing))"

definition validate_constant_initializer ::
  "collaborators \<Rightarrow> ir_variable \<Rightarrow> pair_state \<Rightarrow> pair_state flow" where
  "validate_constant_initializer X var = (\<lambda>(prog, existing).
     case constant_initializer var of
       Some c \<Rightarrow>
         (case constant_initializer existing of
            Some e \<Rightarrow>
              if \<not> has_value X c e
              then Return (linker_error prog
                             (''initializers for '' @ mode_string X var @ '' `'' @ name var
                              @ ''' have differing values\<newline>''), existing)
              else Continue (prog, existing)
          | None \<Rightarrow> Continue (prog, existing\<lparr>constant_initializer := Some c\<rparr>))
     | None \<Rightarrow> Continue (prog, existing))"

definition validate_has_initializer :: "ir_variable \<Rightarrow> pair_state \<Rightarrow> pair_state flow" where
  "validate_has_initializer var = (\<lambda>(prog, existing).
     if has_initializer var then
       (if has_initializer existing
           \<and> (constant_initializer var = None \<or> constant_initializer existing = None)
        then Return (linker_error prog
                       (''shared global variable `'' @ name var
                        @ ''' has multiple non-constant initializers.\<newline>''), existing)
        else Continue (prog, existing\<lparr>has_initializer := True\<rparr>))
     else Continue (prog, existing))"

definition validate_invariant :: "collaborators \<Rightarrow> ir_variable \<Rightarrow> pair_state \<Rightarrow> pair_state flow" where
  "validate_invariant X var = (\<lambda>(prog, existing).
     if invariant existing \<noteq> invariant var
     then Return (linker_error prog
                    (''declarations for '' @ mode_string X var @ '' `'' @ name var
                     @ ''' have mismatching invariant qualifiers\<newline>''), existing)
     else Continue (prog, existing))"

definition validate_centroid :: "collaborators \<Rightarrow> ir_variable \<Rightarrow> pair_state \<Rightarrow> pair_state flow" where
  "validate_centroid X var = (\<lambda>(prog, existing).
     if centroid existing \<noteq> centroid var
     then Return (linker_error prog
                    (''declarations for '' @ mode_string X var @ '' `'' @ name var
                     @ ''' have mismatching centroid qualifiers\<newline>''), existing)
     else Continue (prog, existing))"

text \<open>The whole branch \<open>existing != NULL\<close> (lines 597-767).\<close>

definition cross_validate_pair ::
  "collaborators \<Rightarrow> ir_variable \<Rightarrow> pair_state \<Rightarrow> pair_state flow" where
  "cross_validate_pair X var s =
     and_then (and_then (and_then (and_then (and_then (and_then (and_then (and_then
       (validate_type X var s)
       (validate_location X var))
       (validate_binding X var))
       (validate_atomic_offset X var))
       (validate_frag_depth var))
       (validate_constant_initializer X var))
       (validate_has_initializer var))
       (validate_invariant X var))
       (validate_centroid X var)"

type_synonym globals_state = "gl_shader_program \<times> (string \<rightharpoonup> ir_variable)"

text \<open>The loop over the instructions of one shader (lines 577-770).\<close>

fun cross_validate_ir ::
  "collaborators \<Rightarrow> bool \<Rightarrow> ir_instruction list \<Rightarrow> globals_state \<Rightarrow> globals_state flow" where
  "cross_validate_ir X uniforms_only [] s = Continue s"
| "cross_validate_ir X uniforms_only (node # rest) s =
     (case as_variable node of
        None \<Rightarrow> cross_validate_ir X uniforms_only rest s
      | Some var \<Rightarrow>
          if uniforms_only \<and> mode var \<noteq> ir_var_uniform then
            cross_validate_ir X uniforms_only rest s
          else if mode var = ir_var_temporary then
            cross_validate_ir X uniforms_only rest s
          else
            (case snd s (name var) of
               Some existing \<Rightarrow>
                 (case cross_validate_pair X var (fst s, existing) of
                    Return (prog', existing') \<Rightarrow> Return (prog', (snd s)(name var \<mapsto> existing'))
                  | Continue (prog', existing') \<Rightarrow>
                      cross_validate_ir X uniforms_only rest
                        (prog', (snd s)(name var \<mapsto> existing')))
             | None \<Rightarrow>
                 cross_validate_ir X uniforms_only rest (fst s, (snd s)(name var \<mapsto> var))))"

text \<open>The loop over the shaders (lines 573-771); an absent shader is skipped.\<close>

fun cross_validate_shaders ::
  "collaborators \<Rightarrow> bool \<Rightarrow> gl_shader option list \<Rightarrow> globals_state \<Rightarrow> globals_state flow" where
  "cross_validate_shaders X uniforms_only [] s = Continue s"
| "cross_validate_shaders X uniforms_only (None # rest) s =
     cross_validate_shaders X uniforms_only rest s"
| "cross_validate_shaders X uniforms_only (Some shader # rest) s =
     (case cross_validate_ir X uniforms_only (ir shader) s of
        Return s' \<Rightarrow> Return s'
      | Continue s' \<Rightarrow> cross_validate_shaders X uniforms_only rest s')"

text \<open>
  \<open>shader_list\<close> is the array with its \<open>num_shaders\<close> entries. The first definition keeps
  the scratch table at the point where the function ends; \<open>cross_validate_globals\<close> is
  what the caller sees.
\<close>

definition cross_validate_globals_run ::
  "collaborators \<Rightarrow> gl_shader_program \<Rightarrow> gl_shader option list \<Rightarrow> bool \<Rightarrow> globals_state flow" where
  "cross_validate_globals_run X prog shader_list uniforms_only =
     cross_validate_shaders X uniforms_only shader_list (prog, Map.empty)"

definition cross_validate_globals ::
  "collaborators \<Rightarrow> gl_shader_program \<Rightarrow> gl_shader option list \<Rightarrow> bool \<Rightarrow> gl_shader_program" where
  "cross_validate_globals X prog shader_list uniforms_only =
     fst (flow_state (cross_validate_globals_run X prog shader_list uniforms_only))"

section \<open>link_intrastage_shaders: multiply defined functions (lines 1287-1353)\<close>

text \<open>
  Modelled from the spec: \<open>ir_function::exact_matching_signature\<close> is defined in
  \<open>ir_function.cpp\<close>, which is not among the sources. It finds the signature of a function
  whose parameter list is identical, type by type, to the given one.
\<close>

definition exact_matching_signature ::
  "ir_function \<Rightarrow> ir_variable list \<Rightarrow> ir_function_signature option" where
  "exact_matching_signature f actual_parameters =
     find (\<lambda>sig. map var_type (parameters sig) = map var_type actual_parameters) (signatures f)"

text \<open>The loop over the signatures of \<open>f\<close> (lines 1334-1350).\<close>

fun check_signatures ::
  "gl_shader_program \<Rightarrow> string \<Rightarrow> ir_function \<Rightarrow> ir_function_signature list
   \<Rightarrow> gl_shader_program flow" where
  "check_signatures prog f_name other [] = Continue prog"
| "check_signatures prog f_name other (sig # rest) =
     (if \<not> is_defined sig \<or> is_builtin sig then check_signatures prog f_name other rest
      else
        (case exact_matching_signature other (parameters sig) of
           Some other_sig \<Rightarrow>
             if is_defined other_sig \<and> \<not> is_builtin other_sig
             then Return (linker_error prog (''function `'' @ f_name @ ''' is multiply defined''))
             else check_signatures prog f_name other rest
         | None \<Rightarrow> check_signatures prog f_name other rest))"

text \<open>The loop over the later shaders \<open>j\<close> (lines 1324-1351).\<close>

fun check_later_shaders ::
  "gl_shader_program \<Rightarrow> ir_function \<Rightarrow> gl_shader list \<Rightarrow> gl_shader_program flow" where
  "check_later_shaders prog f [] = Continue prog"
| "check_later_shaders prog f (shader_j # rest) =
     (case get_function (symbols shader_j) (function_name f) of
        None \<Rightarrow> check_later_shaders prog f rest
      | Some other \<Rightarrow>
          (case check_signatures prog (function_name f) other (signatures f) of
             Return prog' \<Rightarrow> Return prog'
           | Continue prog' \<Rightarrow> check_later_shaders prog' f rest))"

text \<open>The loop over the instructions of shader \<open>i\<close> (lines 1318-1352).\<close>

fun check_functions ::
  "gl_shader_program \<Rightarrow> ir_instruction list \<Rightarrow> gl_shader list \<Rightarrow> gl_shader_program flow" where
  "check_functions prog [] later = Continue prog"
| "check_functions prog (node # rest) later =
     (case as_function node of
        None \<Rightarrow> check_functions prog rest later
      | Some f \<Rightarrow>
          (case check_later_shaders prog f later of
             Return prog' \<Rightarrow> Return prog'
           | Continue prog' \<Rightarrow> check_functions prog' rest later))"

text \<open>
  The loop over \<open>i < num_shaders - 1\<close> (lines 1317-1353), for a list that is not empty: the
  last shader has no later shader to compare with.
\<close>

fun check_multiply_defined :: "gl_shader_program \<Rightarrow> gl_shader list \<Rightarrow> gl_shader_program flow" where
  "check_multiply_defined prog [] = Continue prog"
| "check_multiply_defined prog [shader] = Continue prog"
| "check_multiply_defined prog (shader_i # later) =
     (case check_functions prog (ir shader_i) later of
        Return prog' \<Rightarrow> Return prog'
      | Continue prog' \<Rightarrow> check_multiply_defined prog' later)"


section \<open>link_invalidate_variable_locations (lines 368-405)\<close>

definition invalidate_variable :: "ir_variable \<Rightarrow> ir_variable" where
  "invalidate_variable v =
     (let v1 = (if \<not> explicit_location v then v\<lparr>location := - 1, location_frac := 0\<rparr> else v)
      in if \<not> explicit_location v1 then v1\<lparr>is_unmatched_generic_inout := True\<rparr>
         else v1\<lparr>is_unmatched_generic_inout := False\<rparr>)"

fun link_invalidate_variable_locations :: "ir_instruction list \<Rightarrow> ir_instruction list" where
  "link_invalidate_variable_locations [] = []"
| "link_invalidate_variable_locations (node # rest) =
     (case as_variable node of
        None \<Rightarrow> node # link_invalidate_variable_locations rest
      | Some v \<Rightarrow> Variable (invalidate_variable v) # link_invalidate_variable_locations rest)"

section \<open>assign_attribute_or_color_locations (lines 1592-1804)\<close>

text \<open>
  The state of the function: the program (the log, the status and the variables of the
  shader, which the function updates in place), the mask \<open>used_locations\<close> and the array
  \<open>to_assign\<close> with its \<open>num_attr\<close> entries in use. The array has 16 elements.
\<close>

record scan_state =
  program :: gl_shader_program
  used_locations :: "32 word"
  to_assign :: "temp_attr list"

definition generic_base_unsigned :: "collaborators \<Rightarrow> gl_shader_type \<Rightarrow> 32 word" where
  "generic_base_unsigned X target_index =
     (if target_index = MESA_SHADER_VERTEX then VERT_ATTRIB_GENERIC0 X else FRAG_RESULT_DATA0 X)"

definition generic_base :: "collaborators \<Rightarrow> gl_shader_type \<Rightarrow> int" where
  "generic_base X target_index = sint (generic_base_unsigned X target_index)"

definition direction :: "gl_shader_type \<Rightarrow> ir_variable_mode" where
  "direction target_index =
     (if target_index = MESA_SHADER_VERTEX then ir_var_shader_in else ir_var_shader_out)"

text \<open>A write through the pointer to the variable at position \<open>k\<close> of the shader's list.\<close>

definition set_variable ::
  "gl_shader_program \<Rightarrow> gl_shader_type \<Rightarrow> nat \<Rightarrow> ir_variable \<Rightarrow> gl_shader_program" where
  "set_variable prog target_index k v =
     (case LinkedShaders prog target_index of
        None \<Rightarrow> prog
      | Some sh \<Rightarrow>
          prog\<lparr>LinkedShaders :=
                 (LinkedShaders prog)(target_index := Some (sh\<lparr>ir := (ir sh)[k := Variable v]\<rparr>))\<rparr>)"

definition variable_at :: "gl_shader_program \<Rightarrow> gl_shader_type \<Rightarrow> nat \<Rightarrow> ir_variable option" where
  "variable_at prog target_index k =
     (case LinkedShaders prog target_index of
        None \<Rightarrow> None
      | Some sh \<Rightarrow> if k < length (ir sh) then as_variable (ir sh ! k) else None)"

definition temp_attr_compare :: "temp_attr \<Rightarrow> temp_attr \<Rightarrow> int" where
  "temp_attr_compare l r = sint (attr_slots r - attr_slots l)"

definition target_string :: "gl_shader_type \<Rightarrow> string" where
  "target_string target_index =
     (if target_index = MESA_SHADER_VERTEX then ''vertex shader input''
      else ''fragment shader output'')"

text \<open>
  Lines 1658-1689: the range check of an explicit location, or the binding the application
  supplied. A failed \<open>assert\<close> is the fault \<open>AssertionFailed\<close>; \<open>Return\<close> is
  \<open>return false\<close>.
\<close>

definition apply_binding ::
  "collaborators \<Rightarrow> gl_shader_type \<Rightarrow> 32 word \<Rightarrow> nat \<Rightarrow> ir_variable \<Rightarrow> scan_state
   \<Rightarrow> fault + (scan_state \<times> ir_variable) flow" where
  "apply_binding X target_index max_index k v st =
     (if explicit_location v then
        (if location v \<ge> sint (max_index + generic_base_unsigned X target_index) \<or> location v < 0
         then Inr (Return
                (st\<lparr>program := linker_error (program st)
                       (''invalid explicit location ''
                        @ string_of_int (if location v < 0 then location v
                                         else location v - generic_base X target_index)
                        @ '' specified for `'' @ name v @ '''\<newline>'')\<rparr>, v))
         else Inr (Continue (st, v)))
      else if target_index = MESA_SHADER_VERTEX then
        (case AttributeBindings (program st) (name v) of
           Some bnd \<Rightarrow>
             if bnd < VERT_ATTRIB_GENERIC0 X then Inl AssertionFailed
             else
               (let v' = v\<lparr>location := sint bnd, is_unmatched_generic_inout := False\<rparr>
                in Inr (Continue (st\<lparr>program := set_variable (program st) target_index k v'\<rparr>, v')))
         | None \<Rightarrow> Inr (Continue (st, v)))
      else if target_index = MESA_SHADER_FRAGMENT then
        (case FragDataBindings (program st) (name v) of
           Some bnd \<Rightarrow>
             if bnd < FRAG_RESULT_DATA0 X then Inl AssertionFailed
             else
               (let v1 = v\<lparr>location := sint bnd, is_unmatched_generic_inout := False\<rparr>;
                    v' = (case FragDataIndexBindings (program st) (name v) of
                            Some idx \<Rightarrow> v1\<lparr>index := sint idx\<rparr>
                          | None \<Rightarrow> v1)
                in Inr (Continue (st\<lparr>program := set_variable (program st) target_index k v'\<rparr>, v')))
         | None \<Rightarrow> Inr (Continue (st, v)))
      else Inr (Continue (st, v)))"

text \<open>
  Lines 1696-1756: a variable with a location marks its slots as used, and any other
  variable is stored in \<open>to_assign[num_attr]\<close>. The source has no bounds check there: a
  write at index 16 or beyond is the fault \<open>OutOfBounds\<close>.
\<close>

definition place_or_collect ::
  "collaborators \<Rightarrow> gl_shader_type \<Rightarrow> nat \<Rightarrow> ir_variable \<Rightarrow> scan_state \<Rightarrow> fault + scan_state flow" where
  "place_or_collect X target_index k v st =
     (let slot_count = count_attribute_slots X (var_type v)
      in if location v \<noteq> - 1 then
           (if location v \<ge> generic_base X target_index \<and> index v < 1 then
              (let attr = (word_of_int (location v - generic_base X target_index) :: 32 word);
                   use_mask = push_bit (unat slot_count) (1 :: 32 word) - 1
               in if (NOT (push_bit (unat attr) use_mask) AND used_locations st) \<noteq> used_locations st
                  then Inr (Return
                         (st\<lparr>program := linker_error (program st)
                                (''insufficient contiguous locations available for ''
                                 @ target_string target_index @ '' `'' @ name v @ ''' ''
                                 @ string_of_int (sint (used_locations st)) @ '' ''
                                 @ string_of_int (sint use_mask) @ '' ''
                                 @ string_of_int (sint attr))\<rparr>))
                  else Inr (Continue
                         (st\<lparr>used_locations := used_locations st OR push_bit (unat attr) use_mask\<rparr>)))
            else Inr (Continue st))
         else if length (to_assign st) \<ge> 16 then Inl OutOfBounds
         else Inr (Continue
                (st\<lparr>to_assign := to_assign st @ [\<lparr>attr_slots = slot_count, attr_var = k\<rparr>]\<rparr>)))"

text \<open>
  The loop over \<open>sh->ir\<close> (lines 1652-1757). \<open>k\<close> is the position of the head of the remaining
  list in \<open>sh->ir\<close>; the loop writes only to the variable it is looking at, so the
  remaining nodes are still as the shader holds them.
\<close>

fun scan_variables ::
  "collaborators \<Rightarrow> gl_shader_type \<Rightarrow> 32 word \<Rightarrow> nat \<Rightarrow> ir_instruction list \<Rightarrow> scan_state
   \<Rightarrow> fault + scan_state flow" where
  "scan_variables X target_index max_index k [] st = Inr (Continue st)"
| "scan_variables X target_index max_index k (node # rest) st =
     (case as_variable node of
        None \<Rightarrow> scan_variables X target_index max_index (Suc k) rest st
      | Some v \<Rightarrow>
          if mode v \<noteq> direction target_index then
            scan_variables X target_index max_index (Suc k) rest st
          else
            (case apply_binding X target_index max_index k v st of
               Inl f \<Rightarrow> Inl f
             | Inr (Return (st1, v1)) \<Rightarrow> Inr (Return st1)
             | Inr (Continue (st1, v1)) \<Rightarrow>
                 (case place_or_collect X target_index k v1 st1 of
                    Inl f \<Rightarrow> Inl f
                  | Inr (Return st2) \<Rightarrow> Inr (Return st2)
                  | Inr (Continue st2) \<Rightarrow>
                      scan_variables X target_index max_index (Suc k) rest st2)))"

text \<open>The loop over the sorted entries of \<open>to_assign\<close> (lines 1779-1801).\<close>

fun assign_loop ::
  "collaborators \<Rightarrow> gl_shader_type \<Rightarrow> temp_attr list \<Rightarrow> gl_shader_program \<times> 32 word
   \<Rightarrow> gl_shader_program \<times> bool" where
  "assign_loop X target_index [] s = (fst s, True)"
| "assign_loop X target_index (a # rest) s =
     (let use_mask = push_bit (unat (attr_slots a)) (1 :: 32 word) - 1;
          loc = find_available_slots (snd s) (attr_slots a)
      in if loc < 0 then
           (linker_error (fst s)
              (''insufficient contiguous locations available for ''
               @ target_string target_index @ '' `''
               @ (case variable_at (fst s) target_index (attr_var a) of
                    Some v \<Rightarrow> name v | None \<Rightarrow> [])
               @ [CHR 0x27]), False)
         else
           assign_loop X target_index rest
             ((case variable_at (fst s) target_index (attr_var a) of
                 Some v \<Rightarrow>
                   set_variable (fst s) target_index (attr_var a)
                     (v\<lparr>location := generic_base X target_index + loc,
                        is_unmatched_generic_inout := False\<rparr>)
               | None \<Rightarrow> fst s),
              snd s OR push_bit (nat loc) use_mask))"

text \<open>
  The function returns \<open>true\<close> or \<open>false\<close> together with the updated program, unless an
  assertion fails or a write leaves the array \<open>to_assign\<close>.
\<close>

definition assign_attribute_or_color_locations ::
  "collaborators \<Rightarrow> gl_shader_program \<Rightarrow> gl_shader_type \<Rightarrow> 32 word
   \<Rightarrow> fault + gl_shader_program \<times> bool" where
  "assign_attribute_or_color_locations X prog target_index max_index =
     (let initial_locations =
            (if max_index \<ge> 32 then NOT 0
             else NOT (push_bit (unat max_index) (1 :: 32 word) - 1))
      in if target_index \<noteq> MESA_SHADER_VERTEX \<and> target_index \<noteq> MESA_SHADER_FRAGMENT
         then Inl AssertionFailed
         else
           (case LinkedShaders prog target_index of
              None \<Rightarrow> Inr (prog, True)
            | Some sh \<Rightarrow>
                (case scan_variables X target_index max_index 0 (ir sh)
                        \<lparr>program = prog, used_locations = initial_locations, to_assign = []\<rparr> of
                   Inl f \<Rightarrow> Inl f
                 | Inr (Return st) \<Rightarrow> Inr (program st, False)
                 | Inr (Continue st) \<Rightarrow>
                     if to_assign st = [] then Inr (program st, True)
                     else
                       (let sorted = qsort X temp_attr_compare (to_assign st);
                            reserved =
                              (if target_index = MESA_SHADER_VERTEX
                                  \<and> (case LinkedShaders (program st) target_index of
                                        Some sh' \<Rightarrow> find_deref_visitor ''gl_Vertex'' (ir sh')
                                      | None \<Rightarrow> False)
                               then used_locations st OR push_bit 0 (1 :: 32 word)
                               else used_locations st)
                        in Inr (assign_loop X target_index sorted (program st, reserved))))))"

section \<open>Static writes, as the specification words them\<close>

text \<open>
  The specification of the stage validator speaks of a static write to a variable: a
  direct assignment, an \<open>out\<close> or \<open>inout\<close> argument of a call, or the return-value slot of
  a call, anywhere in the instruction tree. \<open>reachable_statements\<close> lists the assignments
  and calls of a tree, and \<open>writes_to\<close> says whether one of them writes the variable.
\<close>

fun reachable_statements :: "ir_instruction \<Rightarrow> ir_instruction list"
  and reachable_statements_function :: "ir_function \<Rightarrow> ir_instruction list"
  and reachable_statements_signature :: "ir_function_signature \<Rightarrow> ir_instruction list"
  and reachable_statements_signatures :: "ir_function_signature list \<Rightarrow> ir_instruction list"
  and reachable_statements_list :: "ir_instruction list \<Rightarrow> ir_instruction list" where
  "reachable_statements (Variable v) = []"
| "reachable_statements (Function f) = reachable_statements_function f"
| "reachable_statements (ir_assignment lhs rhs cond) = [ir_assignment lhs rhs cond]"
| "reachable_statements (ir_call ps as rd) = [ir_call ps as rd]"
| "reachable_statements (ir_if c t e) = reachable_statements_list t @ reachable_statements_list e"
| "reachable_statements (ir_loop b) = reachable_statements_list b"
| "reachable_statements (ir_return v) = []"
| "reachable_statements ir_discard = []"
| "reachable_statements ir_emit_vertex = []"
| "reachable_statements ir_end_primitive = []"
| "reachable_statements_function (IrFunction n sigs) = reachable_statements_signatures sigs"
| "reachable_statements_signature (IrSignature ps d b body) = reachable_statements_list body"
| "reachable_statements_signatures [] = []"
| "reachable_statements_signatures (s # ss) =
     reachable_statements_signature s @ reachable_statements_signatures ss"
| "reachable_statements_list [] = []"
| "reachable_statements_list (i # is) = reachable_statements i @ reachable_statements_list is"

fun writes_to :: "string \<Rightarrow> ir_instruction \<Rightarrow> bool" where
  "writes_to nm (ir_assignment lhs rhs cond) = (variable_referenced lhs = Some nm)"
| "writes_to nm (ir_call ps as rd) =
     ((\<exists>(formal, actual) \<in> set (zip ps as).
         (mode formal = ir_var_function_out \<or> mode formal = ir_var_function_inout)
         \<and> variable_referenced actual = Some nm)
      \<or> (\<exists>d. rd = Some d \<and> variable_referenced d = Some nm))"
| "writes_to nm i = False"

definition static_write :: "string \<Rightarrow> ir_instruction list \<Rightarrow> bool" where
  "static_write nm instructions =
     (\<exists>statement \<in> set (reachable_statements_list instructions). writes_to nm statement)"

section \<open>Mismatches between two declarations of one global\<close>

text \<open>
  The conditions under which two declarations of the same name disagree: the type (an
  implicitly sized array agrees with an explicitly sized one of the same element type),
  the explicit location, the explicit binding, the atomic counter offset, the initializer
  (two constant initializers of different value, or a non-constant initializer of the later
  declaration where the first-seen declaration has an initializer), and the invariant and
  centroid qualifiers.
\<close>

definition type_mismatch :: "ir_variable \<Rightarrow> ir_variable \<Rightarrow> bool" where
  "type_mismatch v existing \<longleftrightarrow>
     var_type v \<noteq> var_type existing
     \<and> \<not> (is_array (var_type v) \<and> is_array (var_type existing)
           \<and> fields_array (var_type v) = fields_array (var_type existing)
           \<and> (type_length (var_type v) = 0 \<or> type_length (var_type existing) = 0))"

definition initializer_mismatch :: "collaborators \<Rightarrow> ir_variable \<Rightarrow> ir_variable \<Rightarrow> bool" where
  "initializer_mismatch X v existing \<longleftrightarrow>
     (case constant_initializer v of
        Some c \<Rightarrow> (case constant_initializer existing of
                     Some e \<Rightarrow> \<not> has_value X c e
                   | None \<Rightarrow> False)
      | None \<Rightarrow> has_initializer v \<and> has_initializer existing)"

definition declarations_mismatch :: "collaborators \<Rightarrow> ir_variable \<Rightarrow> ir_variable \<Rightarrow> bool" where
  "declarations_mismatch X v existing \<longleftrightarrow>
     type_mismatch v existing
     \<or> (explicit_location v \<and> explicit_location existing \<and> location v \<noteq> location existing)
     \<or> (explicit_binding v \<and> explicit_binding existing \<and> binding v \<noteq> binding existing)
     \<or> (contains_atomic X (var_type v) \<and> atomic_offset v \<noteq> atomic_offset existing)
     \<or> initializer_mismatch X v existing
     \<or> invariant existing \<noteq> invariant v
     \<or> centroid existing \<noteq> centroid v"

text \<open>
  The error that reports a mismatch: the checks run in the order type, explicit location,
  explicit binding, atomic counter offset, initializer, invariant, centroid, and the
  first mismatch in that order is the one reported. The mismatches of the first four kinds
  are found before the \<open>gl_FragDepth\<close> layout check runs. That check reports, for a
  redeclaration of \<open>gl_FragDepth\<close> whose layout differs from the first-seen one, one error
  when the redeclaration has a layout qualifier and one more when the shader uses the
  variable; \<open>logged_before_report\<close> is the program with what the validator has logged when
  it reports a mismatch.
\<close>

definition mismatch_report :: "collaborators \<Rightarrow> ir_variable \<Rightarrow> ir_variable \<Rightarrow> string option" where
  "mismatch_report X v existing =
     (if type_mismatch v existing then
        Some (mode_string X v @ '' `'' @ name v @ ''' declared as type `''
              @ type_name X (var_type v) @ ''' and type `''
              @ type_name X (var_type existing) @ '''\<newline>'')
      else if explicit_location v \<and> explicit_location existing
              \<and> location v \<noteq> location existing then
        Some (''explicit locations for '' @ mode_string X v @ '' `'' @ name v
              @ ''' have differing values\<newline>'')
      else if explicit_binding v \<and> explicit_binding existing
              \<and> binding v \<noteq> binding existing then
        Some (''explicit bindings for '' @ mode_string X v @ '' `'' @ name v
              @ ''' have differing values\<newline>'')
      else if contains_atomic X (var_type v) \<and> atomic_offset v \<noteq> atomic_offset existing then
        Some (''offset specifications for '' @ mode_string X v @ '' `'' @ name v
              @ ''' have differing values\<newline>'')
      else if initializer_mismatch X v existing then
        (if constant_initializer v \<noteq> None then
           Some (''initializers for '' @ mode_string X v @ '' `'' @ name v
                 @ ''' have differing values\<newline>'')
         else
           Some (''shared global variable `'' @ name v
                 @ ''' has multiple non-constant initializers.\<newline>''))
      else if invariant existing \<noteq> invariant v then
        Some (''declarations for '' @ mode_string X v @ '' `'' @ name v
              @ ''' have mismatching invariant qualifiers\<newline>'')
      else if centroid existing \<noteq> centroid v then
        Some (''declarations for '' @ mode_string X v @ '' `'' @ name v
              @ ''' have mismatching centroid qualifiers\<newline>'')
      else None)"

definition early_mismatch :: "collaborators \<Rightarrow> ir_variable \<Rightarrow> ir_variable \<Rightarrow> bool" where
  "early_mismatch X v existing \<longleftrightarrow>
     type_mismatch v existing
     \<or> (explicit_location v \<and> explicit_location existing \<and> location v \<noteq> location existing)
     \<or> (explicit_binding v \<and> explicit_binding existing \<and> binding v \<noteq> binding existing)
     \<or> (contains_atomic X (var_type v) \<and> atomic_offset v \<noteq> atomic_offset existing)"

definition frag_depth_reports :: "ir_variable \<Rightarrow> ir_variable \<Rightarrow> string list" where
  "frag_depth_reports v existing =
     (if name v = ''gl_FragDepth'' \<and> depth_layout v \<noteq> depth_layout existing then
        (if depth_layout v \<noteq> ir_depth_layout_none
         then [''All redeclarations of gl_FragDepth in all ''
               @ ''fragment shaders in a single program must have ''
               @ ''the same set of qualifiers.'']
         else [])
        @ (if used v
           then [''If gl_FragDepth is redeclared with a layout ''
                 @ ''qualifier in any fragment shader, it must be ''
                 @ ''redeclared with the same layout qualifier in ''
                 @ ''all fragment shaders that have assignments to ''
                 @ ''gl_FragDepth'']
           else [])
      else [])"

definition logged_before_report ::
  "collaborators \<Rightarrow> ir_variable \<Rightarrow> ir_variable \<Rightarrow> gl_shader_program \<Rightarrow> gl_shader_program" where
  "logged_before_report X v existing prog =
     (if early_mismatch X v existing then prog
      else foldl linker_error prog (frag_depth_reports v existing))"

text \<open>
  The log of \<open>prog'\<close> is the log of \<open>prog\<close> with more text at its end, the last of it an
  error entry, and the link has failed.
\<close>

definition error_logged :: "gl_shader_program \<Rightarrow> gl_shader_program \<Rightarrow> bool" where
  "error_logged prog prog' \<longleftrightarrow>
     \<not> LinkStatus prog'
     \<and> (\<exists>earlier msg. InfoLog prog' = InfoLog prog @ earlier @ ''error: '' @ msg)"

text \<open>
  A sequence of validation steps started with the program \<open>prog\<close> either falls through,
  having at most added text to the log, or has returned with an error logged.
\<close>

definition step_logged :: "gl_shader_program \<Rightarrow> (gl_shader_program \<times> 'a) flow \<Rightarrow> bool" where
  "step_logged prog r =
     (case r of
        Continue (prog', e) \<Rightarrow> (\<exists>earlier. InfoLog prog' = InfoLog prog @ earlier)
      | Return (prog', e) \<Rightarrow> error_logged prog prog')"

section \<open>Multiply defined functions, as the specification words them\<close>

text \<open>
  A unit defines a signature of a function when its symbol table has the function, with a
  signature of the identical parameter list that is defined and is not a built-in. Two
  units clash on a function name when the first has, among its instructions, a function of
  that name with a defined signature, not a built-in, that the second unit defines too. A
  function is multiply defined in a list of units when two distinct units of the list
  clash on it.
\<close>

definition defines_signature :: "gl_shader \<Rightarrow> string \<Rightarrow> ir_variable list \<Rightarrow> bool" where
  "defines_signature shader f_name params =
     (case get_function (symbols shader) f_name of
        None \<Rightarrow> False
      | Some other \<Rightarrow>
          (case exact_matching_signature other params of
             None \<Rightarrow> False
           | Some other_sig \<Rightarrow> is_defined other_sig \<and> \<not> is_builtin other_sig))"

definition function_clashes :: "ir_function \<Rightarrow> gl_shader \<Rightarrow> bool" where
  "function_clashes f shader_j =
     (\<exists>sig \<in> set (signatures f).
        is_defined sig \<and> \<not> is_builtin sig
        \<and> defines_signature shader_j (function_name f) (parameters sig))"

definition units_clash :: "gl_shader \<Rightarrow> gl_shader \<Rightarrow> string \<Rightarrow> bool" where
  "units_clash shader_i shader_j f_name =
     (\<exists>node \<in> set (ir shader_i).
        case as_function node of
          None \<Rightarrow> False
        | Some f \<Rightarrow> function_name f = f_name \<and> function_clashes f shader_j)"

fun multiply_defined :: "gl_shader list \<Rightarrow> string \<Rightarrow> bool" where
  "multiply_defined [] f_name = False"
| "multiply_defined (shader_i # later) f_name =
     ((\<exists>shader_j \<in> set later. units_clash shader_i shader_j f_name)
      \<or> multiply_defined later f_name)"



section \<open>Variables that need a linker-assigned location\<close>




text \<open>
  What \<open>link_shaders\<close> has established when it calls the location assignment: the
  locations that are not explicit have been invalidated (lines 2216-2227), and a binding
  is the index the application passed plus the generic base, never the bit pattern of -1.
\<close>

definition locations_invalidated :: "ir_instruction list \<Rightarrow> bool" where
  "locations_invalidated instructions \<longleftrightarrow>
     (\<forall>node \<in> set instructions.
        case as_variable node of
          Some v \<Rightarrow> explicit_location v \<or> location v = - 1
        | None \<Rightarrow> True)"





section \<open>What a run of the location assignment reads and what it yields\<close>

text \<open>
  The inputs of a run: the shader of the target stage (its variables in declaration order,
  with their types and explicit locations, and its statements) and the three binding
  tables of the application; together with the slot budget \<open>max_index\<close>. The outcome of a
  run: the fault, or the shader with the locations of its variables and the
  success flag.
\<close>

definition run_inputs ::
  "gl_shader_type \<Rightarrow> gl_shader_program
   \<Rightarrow> gl_shader option \<times> (string \<rightharpoonup> 32 word) \<times> (string \<rightharpoonup> 32 word) \<times> (string \<rightharpoonup> 32 word)" where
  "run_inputs target_index prog =
     (LinkedShaders prog target_index, AttributeBindings prog, FragDataBindings prog,
      FragDataIndexBindings prog)"

definition run_outcome ::
  "gl_shader_type \<Rightarrow> fault + gl_shader_program \<times> bool \<Rightarrow> fault + gl_shader option \<times> bool" where
  "run_outcome target_index r =
     (case r of
        Inl f \<Rightarrow> Inl f
      | Inr (prog, ok) \<Rightarrow> Inr (LinkedShaders prog target_index, ok))"

text \<open>What the scan over the variables has read and computed so far.\<close>

definition scan_inputs ::
  "gl_shader_type \<Rightarrow> scan_state
   \<Rightarrow> (gl_shader option \<times> (string \<rightharpoonup> 32 word) \<times> (string \<rightharpoonup> 32 word) \<times> (string \<rightharpoonup> 32 word))
      \<times> 32 word \<times> temp_attr list" where
  "scan_inputs target_index st =
     (run_inputs target_index (program st), used_locations st, to_assign st)"

section \<open>Concrete inputs\<close>

text \<open>
  A program right after the reset of \<open>link_shaders\<close>, with no linked shader and no
  binding, and one implementation of the routines defined outside \<open>linker.cpp\<close>, used to
  run the model on concrete inputs: the sort is a stable insertion sort (the C library
  leaves the order of equal elements open), the slot count of a type is 1 for a type that
  is not an array and the length of an array otherwise, the generic attribute base is 16
  and the fragment data base is 2.
\<close>

definition empty_program :: gl_shader_program where
  "empty_program =
     \<lparr>InfoLog = [], LinkStatus = True, Version = 110, IsES = False,
      Vert_UsesClipDistance = False, Vert_ClipDistanceArraySize = 0,
      LinkedShaders = (\<lambda>t. None), AttributeBindings = Map.empty,
      FragDataBindings = Map.empty, FragDataIndexBindings = Map.empty\<rparr>"

fun insert_by :: "('a \<Rightarrow> 'a \<Rightarrow> int) \<Rightarrow> 'a \<Rightarrow> 'a list \<Rightarrow> 'a list" where
  "insert_by cmp x [] = [x]"
| "insert_by cmp x (y # ys) = (if cmp x y \<le> 0 then x # y # ys else y # insert_by cmp x ys)"

fun insertion_sort :: "('a \<Rightarrow> 'a \<Rightarrow> int) \<Rightarrow> 'a list \<Rightarrow> 'a list" where
  "insertion_sort cmp [] = []"
| "insertion_sort cmp (x # xs) = insert_by cmp x (insertion_sort cmp xs)"

fun example_mode_string :: "ir_variable \<Rightarrow> string" where
  "example_mode_string v =
     (if mode v = ir_var_uniform then ''uniform''
      else if mode v = ir_var_shader_in then ''shader input''
      else if mode v = ir_var_shader_out then ''shader output''
      else ''global variable'')"

fun example_type_name :: "glsl_type \<Rightarrow> string" where
  "example_type_name (glsl_basic s) = s"
| "example_type_name (glsl_array e n) =
     example_type_name e @ ''['' @ (if n = 0 then [] else string_of_nat n) @ '']''"

fun example_slots :: "glsl_type \<Rightarrow> 32 word" where
  "example_slots (glsl_basic s) = 1"
| "example_slots (glsl_array e n) = word_of_nat n"

definition example_collaborators :: collaborators where
  "example_collaborators =
     \<lparr>mode_string = example_mode_string,
      type_name = example_type_name,
      contains_atomic = (\<lambda>t. False),
      has_value = (\<lambda>a b. a = b),
      count_attribute_slots = example_slots,
      VERT_ATTRIB_GENERIC0 = 16,
      FRAG_RESULT_DATA0 = 2,
      qsort = insertion_sort,
      validate_intrastage_interface_blocks = (\<lambda>prog shaders. prog),
      link_uniform_blocks = (\<lambda>prog shaders. prog),
      link_intrastage_remainder = (\<lambda>prog shaders. (prog, None))\<rparr>"

text \<open>A declaration of a global with no qualifier set.\<close>

definition plain_variable :: "string \<Rightarrow> glsl_type \<Rightarrow> ir_variable_mode \<Rightarrow> ir_variable" where
  "plain_variable n t m =
     \<lparr>name = n, var_type = t, mode = m, explicit_location = False, location = - 1,
      explicit_binding = False, binding = 0, atomic_offset = 0,
      depth_layout = ir_depth_layout_none, used = False, constant_initializer = None,
      has_initializer = False, invariant = False, centroid = False, index = 0,
      is_unmatched_generic_inout = False, location_frac = 0\<rparr>"

definition empty_symbols :: glsl_symbol_table where
  "empty_symbols = \<lparr>get_variable = Map.empty, get_function = Map.empty\<rparr>"

text \<open>
  \<open>n\<close> generic vertex inputs of type \<open>vec4\<close> with invalidated locations, named \<open>a\<close>,
  \<open>aa\<close>, \<open>aaa\<close> and so on (the longest name first), and a program whose linked vertex
  shader has the given instructions.
\<close>

fun attribute_declarations :: "nat \<Rightarrow> ir_instruction list" where
  "attribute_declarations 0 = []"
| "attribute_declarations (Suc n) =
     Variable (plain_variable (replicate (Suc n) CHR ''a'') (glsl_basic ''vec4'') ir_var_shader_in)
     # attribute_declarations n"

definition vertex_program :: "ir_instruction list \<Rightarrow> gl_shader_program" where
  "vertex_program instructions =
     empty_program\<lparr>LinkedShaders :=
       (\<lambda>t. if t = MESA_SHADER_VERTEX
            then Some \<lparr>Type = MESA_SHADER_VERTEX, ir = instructions, symbols = empty_symbols\<rparr>
            else None)\<rparr>"

section \<open>Properties of the slot search\<close>

lemma sint_32_cases:
  fixes w :: "32 word"
  shows "sint w = (if uint w < 2147483648 then uint w else uint w - 4294967296)"
proof -
  have b: "uint w < 4294967296" "0 \<le> uint w" using uint_bounded[of w] by simp_all
  have s: "sint w = (uint w + 2147483648) mod 4294967296 - 2147483648"
    by (simp add: sint_uint signed_take_bit_eq_take_bit_shift take_bit_eq_mod)
  show ?thesis
  proof (cases "uint w < 2147483648")
    case True
    then have "(uint w + 2147483648) mod 4294967296 = uint w + 2147483648"
      using b by (intro mod_pos_pos_trivial) simp_all
    with True s show ?thesis by simp
  next
    case False
    have "uint w + 2147483648 = (uint w - 2147483648) + 4294967296" by simp
    then have "(uint w + 2147483648) mod 4294967296 = (uint w - 2147483648) mod 4294967296"
      by (simp only: mod_add_self2)
    also have "\<dots> = uint w - 2147483648"
      using False b by (intro mod_pos_pos_trivial) simp_all
    finally show ?thesis using False s by simp
  qed
qed

lemma max_bit_to_test_out_of_range:
  fixes n :: "32 word"
  assumes "32 < n"
  shows "sint (32 - n) < 0 \<or> 32 < sint (32 - n)"
proof -
  have a: "32 < uint n" using assms by (simp add: word_less_def)
  have b: "uint n < 4294967296" using uint_bounded[of n] by simp
  have c: "uint (32 - n) = 4294967328 - uint n"
    using a b by (simp add: uint_sub_if')
  show ?thesis
    using a b c by (simp add: sint_32_cases)
qed

text \<open>
  Claim C2. For every used-slot mask, a request for zero slots, or for more slots than the
  32 bits of the mask, yields the result "no slot available" (-1). The result does not
  depend on the mask, also where a scan would have found a free run (for a count of zero
  every position fits): no scan takes place. The mask is a by-value argument of a function
  that returns the slot only, so the caller's mask is as it was.
\<close>

theorem find_available_slots_rejects:
  "needed_count = 0 \<or> 32 < needed_count \<Longrightarrow> find_available_slots used_mask needed_count = - 1"
  using max_bit_to_test_out_of_range [of needed_count]
  by (auto simp: find_available_slots_def Let_def)

theorem find_available_slots_rejects_witness:
  "find_available_slots 0 0 = - 1 \<and> find_available_slots 0 33 = - 1
   \<and> find_available_slots 5 4294967295 = - 1"
  using find_available_slots_rejects [of 0 0] find_available_slots_rejects [of 33 0]
    find_available_slots_rejects [of 4294967295 5]
  by simp

section \<open>Properties of the diagnostic log\<close>

text \<open>
  Claim C6 asks for error entries and warning entries to carry different prefixes. The
  code gives both the same prefix: \<open>linker_warning\<close> appends \<open>error: \<close> as \<open>linker_error\<close>
  does, so the log after a warning is, character by character, the log after an error with
  the same message.
\<close>

theorem linker_warning_prefix_is_error_prefix:
  "InfoLog (linker_warning prog msg) = InfoLog prog @ ''error: '' @ msg
   \<and> InfoLog (linker_warning prog msg) = InfoLog (linker_error prog msg)"
  by (simp add: linker_warning_def linker_error_def)

lemma log_events_InfoLog:
  "InfoLog (log_events p evs) =
     InfoLog p @ concat (map (\<lambda>e. ''error: '' @ (case e of Error m \<Rightarrow> m | Warning m \<Rightarrow> m)) evs)"
  unfolding log_events_def
  by (induction evs arbitrary: p)
     (auto simp: linker_error_def linker_warning_def split: linker_event.splits)

lemma log_events_LinkStatus:
  "LinkStatus (log_events p evs) = (LinkStatus p \<and> (\<forall>e \<in> set evs. \<exists>m. e = Warning m))"
  unfolding log_events_def
proof (induction evs arbitrary: p)
  case Nil
  show ?case by simp
next
  case (Cons e evs)
  show ?case
    by (cases e) (auto simp: Cons.IH linker_error_def linker_warning_def)
qed

lemma error_event_in_log:
  assumes "Error msg \<in> set evs"
  shows "sublist (''error: '' @ msg) (InfoLog (log_events p evs))"
proof -
  from assms obtain xs ys where evs: "evs = xs @ Error msg # ys"
    by (auto dest: split_list)
  let ?f = "\<lambda>e. ''error: '' @ (case e of Error m \<Rightarrow> m | Warning m \<Rightarrow> m)"
  have "InfoLog (log_events p evs)
          = (InfoLog p @ concat (map ?f xs)) @ (''error: '' @ msg) @ concat (map ?f ys)"
    by (simp add: log_events_InfoLog evs)
  then show ?thesis
    by (metis sublist_appendI)
qed

lemma sublist_error_prefix: "sublist ''error: '' (''error: '' @ msg)"
  using sublist_appendI [of "''error: ''" "[]" msg] by simp

section \<open>Properties of the vertex stage validator\<close>

lemma call_parameters_write_zip:
  "call_parameters_write nm ps as =
     (\<exists>(formal, actual) \<in> set (zip ps as).
         (mode formal = ir_var_function_out \<or> mode formal = ir_var_function_inout)
         \<and> variable_referenced actual = Some nm)"
  by (induction nm ps as rule: call_parameters_write.induct) (auto split: option.splits)

lemma visit_enter_call_writes_to:
  "visit_enter_call nm ps as rd = writes_to nm (ir_call ps as rd)"
  by (auto simp: visit_enter_call_def call_parameters_write_zip split: option.splits)

lemma visit_enter_assignment_writes_to:
  "visit_enter_assignment nm lhs = writes_to nm (ir_assignment lhs rhs cond)"
  by (auto simp: visit_enter_assignment_def split: option.splits)

lemma find_assignment_reachable:
  "find_assignment nm i = (\<exists>s \<in> set (reachable_statements i). writes_to nm s)"
  "find_assignment_function nm f = (\<exists>s \<in> set (reachable_statements_function f). writes_to nm s)"
  "find_assignment_signature nm sg = (\<exists>s \<in> set (reachable_statements_signature sg). writes_to nm s)"
  "find_assignment_signatures nm sgs = (\<exists>s \<in> set (reachable_statements_signatures sgs). writes_to nm s)"
  "find_assignment_list nm is = (\<exists>s \<in> set (reachable_statements_list is). writes_to nm s)"
proof (induction nm i and nm f and nm sg and nm sgs and nm "is"
       rule: find_assignment_find_assignment_function_find_assignment_signature_find_assignment_signatures_find_assignment_list.induct)
  case (3 nm lhs rhs cond)
  show ?case using visit_enter_assignment_writes_to [of nm lhs rhs cond] by simp
next
  case (4 nm ps as rd)
  show ?case using visit_enter_call_writes_to [of nm ps as rd] by simp
qed (auto)

lemma find_assignment_visitor_static_write:
  "find_assignment_visitor nm instructions = static_write nm instructions"
  by (simp add: find_assignment_visitor_def static_write_def find_assignment_reachable(5))

lemma analyze_clip_usage_log:
  "InfoLog (fst (analyze_clip_usage ''vertex'' prog sh u)) = InfoLog prog
   \<or> InfoLog (fst (analyze_clip_usage ''vertex'' prog sh u))
       = InfoLog prog @ ''error: vertex shader writes to both `gl_ClipVertex' and `gl_ClipDistance'\<newline>''"
  by (simp add: analyze_clip_usage_def Let_def linker_error_def)

text \<open>
  Claim C7. For a vertex-stage executable, validation appends the missing-position-write
  error and clears \<open>LinkStatus\<close> exactly when the language version is below the threshold
  (300 for an ES program, 140 otherwise) and the tree holds no static write to
  \<open>gl_Position\<close>, a static write being a direct assignment, an \<open>out\<close> or \<open>inout\<close> argument
  of a call, or the return-value slot of a call. At or above the threshold the error is
  never recorded.
\<close>

theorem missing_position_write_error:
  "(InfoLog (validate_vertex_shader_executable prog (Some sh))
      = InfoLog prog @ ''error: vertex shader does not write to `gl_Position'\<newline>''
    \<and> \<not> LinkStatus (validate_vertex_shader_executable prog (Some sh)))
   \<longleftrightarrow> (Version prog < (if IsES prog then 300 else 140)
        \<and> \<not> static_write ''gl_Position'' (ir sh))"
proof (cases "Version prog < (if IsES prog then 300 else 140)
        \<and> \<not> static_write ''gl_Position'' (ir sh)")
  case True
  then show ?thesis
    by (simp add: validate_vertex_shader_executable_def find_assignment_visitor_static_write
        linker_error_def)
next
  case False
  then have v: "validate_vertex_shader_executable prog (Some sh) =
      (case analyze_clip_usage ''vertex'' prog sh (Vert_UsesClipDistance prog) of
         (prog', uses, array_size) \<Rightarrow>
           prog'\<lparr>Vert_UsesClipDistance := uses, Vert_ClipDistanceArraySize := array_size\<rparr>)"
    by (auto simp: validate_vertex_shader_executable_def find_assignment_visitor_static_write)
  have "InfoLog (validate_vertex_shader_executable prog (Some sh))
          = InfoLog (fst (analyze_clip_usage ''vertex'' prog sh (Vert_UsesClipDistance prog)))"
    unfolding v by (simp split: prod.splits)
  with analyze_clip_usage_log [of prog sh "Vert_UsesClipDistance prog"]
  have "InfoLog (validate_vertex_shader_executable prog (Some sh))
          \<noteq> InfoLog prog @ ''error: vertex shader does not write to `gl_Position'\<newline>''"
    by auto
  with False show ?thesis by blast
qed

theorem missing_position_write_error_witness:
  "InfoLog (validate_vertex_shader_executable empty_program
      (Some \<lparr>Type = MESA_SHADER_VERTEX,
             ir = [Function (IrFunction ''main'' [IrSignature [] True False
                     [ir_assignment (ir_dereference_variable ''gl_FrontColor'')
                        (ir_dereference_variable ''color'') None]])],
             symbols = empty_symbols\<rparr>))
     = ''error: vertex shader does not write to `gl_Position'\<newline>''
   \<and> \<not> LinkStatus (validate_vertex_shader_executable empty_program
      (Some \<lparr>Type = MESA_SHADER_VERTEX,
             ir = [Function (IrFunction ''main'' [IrSignature [] True False
                     [ir_assignment (ir_dereference_variable ''gl_FrontColor'')
                        (ir_dereference_variable ''color'') None]])],
             symbols = empty_symbols\<rparr>))"
  using missing_position_write_error [of empty_program
      "\<lparr>Type = MESA_SHADER_VERTEX,
             ir = [Function (IrFunction ''main'' [IrSignature [] True False
                     [ir_assignment (ir_dereference_variable ''gl_FrontColor'')
                        (ir_dereference_variable ''color'') None]])],
             symbols = empty_symbols\<rparr>"]
  by (simp add: empty_program_def static_write_def)

section \<open>Properties of the cross-validator\<close>

lemma validate_type_unsized:
  assumes "var_type v = glsl_array elem n" "var_type existing = glsl_array elem m"
    "(n = 0) \<noteq> (m = 0)"
  shows "validate_type X v (prog, existing)
           = Continue (prog, existing\<lparr>var_type := glsl_array elem (max n m)\<rparr>)"
  using assms by (cases "n = 0") (auto simp: validate_type_def)

lemma validate_type_fields:
  "validate_type X v (p, ex) = r \<Longrightarrow>
     var_type (snd (flow_state r)) = var_type ex \<or>
     (var_type (snd (flow_state r)) = var_type v \<and> type_length (var_type v) \<noteq> 0
       \<and> type_length (var_type ex) = 0 \<and> is_array (var_type ex))"
  by (auto simp: validate_type_def split: if_splits)

lemma later_steps_keep_type:
  "var_type (snd (flow_state (validate_location X v s))) = var_type (snd s)"
  "var_type (snd (flow_state (validate_binding X v s))) = var_type (snd s)"
  "var_type (snd (flow_state (validate_atomic_offset X v s))) = var_type (snd s)"
  "var_type (snd (flow_state (validate_frag_depth v s))) = var_type (snd s)"
  "var_type (snd (flow_state (validate_constant_initializer X v s))) = var_type (snd s)"
  "var_type (snd (flow_state (validate_has_initializer v s))) = var_type (snd s)"
  "var_type (snd (flow_state (validate_invariant X v s))) = var_type (snd s)"
  "var_type (snd (flow_state (validate_centroid X v s))) = var_type (snd s)"
  by (cases s; simp add: validate_location_def validate_binding_def validate_atomic_offset_def
      validate_frag_depth_def validate_constant_initializer_def validate_has_initializer_def
      validate_invariant_def validate_centroid_def Let_def split: option.splits)+

lemma and_then_keeps:
  assumes "\<And>s. P (snd (flow_state (f s))) = P (snd s)"
  shows "P (snd (flow_state (and_then r f))) = P (snd (flow_state r))"
  using assms by (cases r) auto

lemma cross_validate_pair_type:
  "var_type (snd (flow_state (cross_validate_pair X v s)))
     = var_type (snd (flow_state (validate_type X v s)))"
  unfolding cross_validate_pair_def
  by (simp add: and_then_keeps [where P = var_type] later_steps_keep_type)

lemma sized_entry_stable_pair:
  assumes "var_type ex = glsl_array e m" "m \<noteq> 0"
  shows "var_type (snd (flow_state (cross_validate_pair X v (p, ex)))) = glsl_array e m"
  using validate_type_fields [OF refl, of X v p ex] assms
  by (auto simp: cross_validate_pair_type)

lemma cross_validate_ir_sized_stable:
  assumes "snd s n = Some ex" "var_type ex = glsl_array e m" "m \<noteq> 0"
  shows "\<exists>ex'. snd (flow_state (cross_validate_ir X uo is s)) n = Some ex'
               \<and> var_type ex' = glsl_array e m"
  using assms
proof (induction "is" arbitrary: s ex)
  case Nil
  then show ?case by simp
next
  case (Cons node rest)
  show ?case
  proof (cases "as_variable node")
    case None
    with Cons show ?thesis by simp
  next
    case (Some v)
    show ?thesis
    proof (cases "(uo \<and> mode v \<noteq> ir_var_uniform) \<or> mode v = ir_var_temporary")
      case True
      with Some have "cross_validate_ir X uo (node # rest) s = cross_validate_ir X uo rest s"
        by auto
      with Cons.IH [OF Cons.prems] show ?thesis by simp
    next
      case False
      show ?thesis
      proof (cases "snd s (name v)")
        case None
        then have ne: "name v \<noteq> n" using Cons.prems(1) by auto
        have "snd (fst s, (snd s)(name v \<mapsto> v)) n = Some ex"
          using ne Cons.prems(1) by simp
        from Cons.IH [OF this Cons.prems(2,3)] Some False None show ?thesis
          by auto
      next
        case (Some existing) note ex = this
        obtain p' ex' where r: "flow_state (cross_validate_pair X v (fst s, existing)) = (p', ex')"
          by (cases "flow_state (cross_validate_pair X v (fst s, existing))") auto
        have entry: "\<exists>ex2. ((snd s)(name v \<mapsto> ex')) n = Some ex2 \<and> var_type ex2 = glsl_array e m"
        proof (cases "name v = n")
          case True
          then have "existing = ex" using ex Cons.prems(1) by simp
          with sized_entry_stable_pair [OF Cons.prems(2,3), of X v "fst s"] r
          have "var_type ex' = glsl_array e m" by simp
          with True show ?thesis by simp
        next
          case False
          with Cons.prems show ?thesis by simp
        qed
        then obtain ex2 where ex2: "snd (p', (snd s)(name v \<mapsto> ex')) n = Some ex2"
          "var_type ex2 = glsl_array e m" by auto
        show ?thesis
        proof (cases "cross_validate_pair X v (fst s, existing)")
          case (Continue st)
          with r have st: "st = (p', ex')" by simp
          from Cons.IH [OF ex2(1) ex2(2) Cons.prems(3)] \<open>as_variable node = Some v\<close> False ex Continue st
          show ?thesis by auto
        next
          case (Return st)
          with r have st: "st = (p', ex')" by simp
          from ex2 \<open>as_variable node = Some v\<close> False ex Return st
          show ?thesis by auto
        qed
      qed
    qed
  qed
qed

lemma cross_validate_shaders_sized_stable:
  assumes "snd s n = Some ex" "var_type ex = glsl_array e m" "m \<noteq> 0"
  shows "\<exists>ex'. snd (flow_state (cross_validate_shaders X uo shaders s)) n = Some ex'
               \<and> var_type ex' = glsl_array e m"
  using assms
proof (induction shaders arbitrary: s ex)
  case Nil
  then show ?case by simp
next
  case (Cons sh rest)
  show ?case
  proof (cases sh)
    case None
    with Cons show ?thesis by simp
  next
    case (Some shader)
    from cross_validate_ir_sized_stable [OF Cons.prems, of X uo "ir shader"]
    obtain ex1 where ex1: "snd (flow_state (cross_validate_ir X uo (ir shader) s)) n = Some ex1"
      "var_type ex1 = glsl_array e m" by auto
    show ?thesis
    proof (cases "cross_validate_ir X uo (ir shader) s")
      case (Continue s1)
      with ex1 have "snd s1 n = Some ex1" by simp
      from Cons.IH [OF this ex1(2) Cons.prems(3)] Some Continue show ?thesis by simp
    next
      case (Return s1)
      with ex1 Some show ?thesis by simp
    qed
  qed
qed

text \<open>
  Claim C3. When a declaration meets the first-seen declaration of the same name, both are
  arrays of the same element type and exactly one of them is implicitly sized (length 0),
  the type check records no error and does not return, and at the end of the validation,
  whatever declarations follow, the declaration retained in the scratch symbol table has
  the explicitly sized array type.
\<close>

theorem unsized_array_adopts_explicit_size:
  assumes "var_type v = glsl_array elem n" and "var_type existing = glsl_array elem m"
    and "(n = 0) \<noteq> (m = 0)"
    and "\<not> (uniforms_only \<and> mode v \<noteq> ir_var_uniform)" and "mode v \<noteq> ir_var_temporary"
    and "variables (name v) = Some existing"
  shows "validate_type X v (prog, existing)
           = Continue (prog, existing\<lparr>var_type := glsl_array elem (max n m)\<rparr>)
         \<and> (\<exists>retained.
               snd (flow_state (cross_validate_shaders X uniforms_only
                                  (Some (shader\<lparr>ir := Variable v # rest\<rparr>) # others)
                                  (prog, variables))) (name v) = Some retained
               \<and> var_type retained = glsl_array elem (max n m))"
proof
  show t: "validate_type X v (prog, existing)
           = Continue (prog, existing\<lparr>var_type := glsl_array elem (max n m)\<rparr>)"
    by (rule validate_type_unsized [OF assms(1-3)])
  have mx: "max n m \<noteq> 0" using assms(3) by auto
  obtain p' ex' where r: "flow_state (cross_validate_pair X v (prog, existing)) = (p', ex')"
    by (cases "flow_state (cross_validate_pair X v (prog, existing))") auto
  have ty: "var_type ex' = glsl_array elem (max n m)"
    using cross_validate_pair_type [of X v "(prog, existing)"] r t by simp
  let ?tab = "variables(name v \<mapsto> ex')"
  have entry: "snd (p', ?tab) (name v) = Some ex'" by simp
  show "\<exists>retained.
               snd (flow_state (cross_validate_shaders X uniforms_only
                                  (Some (shader\<lparr>ir := Variable v # rest\<rparr>) # others)
                                  (prog, variables))) (name v) = Some retained
               \<and> var_type retained = glsl_array elem (max n m)"
  proof (cases "cross_validate_pair X v (prog, existing)")
    case (Return st)
    with r have "st = (p', ex')" by simp
    with Return assms(4-6) ty show ?thesis by auto
  next
    case (Continue st)
    with r have st: "st = (p', ex')" by simp
    from cross_validate_ir_sized_stable [OF entry ty mx, of X uniforms_only rest]
    obtain ex1 where ex1:
      "snd (flow_state (cross_validate_ir X uniforms_only rest (p', ?tab))) (name v) = Some ex1"
      "var_type ex1 = glsl_array elem (max n m)" by auto
    show ?thesis
    proof (cases "cross_validate_ir X uniforms_only rest (p', ?tab)")
      case (Return s1)
      with ex1 Continue st assms(4-6) show ?thesis by auto
    next
      case (Continue s1) note c1 = this
      with ex1 have "snd s1 (name v) = Some ex1" by simp
      from cross_validate_shaders_sized_stable [OF this ex1(2) mx, of X uniforms_only others]
        \<open>cross_validate_pair X v (prog, existing) = Continue st\<close> st c1 assms(4-6)
      show ?thesis by auto
    qed
  qed
qed

theorem unsized_array_adopts_explicit_size_witness:
  "validate_type example_collaborators
      (plain_variable ''a'' (glsl_array (glsl_basic ''float'') 4) ir_var_uniform)
      (empty_program, plain_variable ''a'' (glsl_array (glsl_basic ''float'') 0) ir_var_uniform)
     = Continue (empty_program,
         plain_variable ''a'' (glsl_array (glsl_basic ''float'') 4) ir_var_uniform)
   \<and> (\<exists>retained.
         snd (flow_state (cross_validate_shaders example_collaborators True
               [Some \<lparr>Type = MESA_SHADER_FRAGMENT,
                      ir = [Variable (plain_variable ''a'' (glsl_array (glsl_basic ''float'') 4)
                                        ir_var_uniform)],
                      symbols = empty_symbols\<rparr>]
               (empty_program,
                [''a'' \<mapsto> plain_variable ''a'' (glsl_array (glsl_basic ''float'') 0)
                               ir_var_uniform]))) ''a'' = Some retained
         \<and> var_type retained = glsl_array (glsl_basic ''float'') 4)"
  using unsized_array_adopts_explicit_size
    [where v = "plain_variable ''a'' (glsl_array (glsl_basic ''float'') 4) ir_var_uniform"
       and existing = "plain_variable ''a'' (glsl_array (glsl_basic ''float'') 0) ir_var_uniform"
       and elem = "glsl_basic ''float''" and n = 4 and m = 0
       and uniforms_only = True
       and variables = "[''a'' \<mapsto> plain_variable ''a'' (glsl_array (glsl_basic ''float'') 0)
                               ir_var_uniform]"
       and X = example_collaborators and prog = empty_program
       and shader = "\<lparr>Type = MESA_SHADER_FRAGMENT, ir = [], symbols = empty_symbols\<rparr>"
       and rest = "[]" and others = "[]"]
  by (simp add: plain_variable_def)

lemma and_then_Return_iff:
  "and_then r f = Return s' \<longleftrightarrow> r = Return s' \<or> (\<exists>s. r = Continue s \<and> f s = Return s')"
  by (cases r) auto

lemma and_then_Continue_iff:
  "and_then r f = Continue s' \<longleftrightarrow> (\<exists>s. r = Continue s \<and> f s = Continue s')"
  by (cases r) auto

text \<open>
  A step that continues has found no mismatch of its kind and leaves alone what the later
  steps compare.
\<close>

lemma validate_type_Continue:
  "validate_type X v (p, ex) = Continue (p', ex') \<Longrightarrow>
     \<not> type_mismatch v ex \<and> p' = p
     \<and> explicit_location ex' = explicit_location ex \<and> location ex' = location ex
     \<and> explicit_binding ex' = explicit_binding ex \<and> binding ex' = binding ex
     \<and> atomic_offset ex' = atomic_offset ex
     \<and> constant_initializer ex' = constant_initializer ex
     \<and> has_initializer ex' = has_initializer ex
     \<and> invariant ex' = invariant ex \<and> centroid ex' = centroid ex"
  by (auto simp: validate_type_def type_mismatch_def split: if_splits)

lemma validate_location_Continue:
  "validate_location X v (p, ex) = Continue (p', ex') \<Longrightarrow>
     \<not> (explicit_location v \<and> explicit_location ex \<and> location v \<noteq> location ex)
     \<and> p' = p
     \<and> explicit_binding ex' = explicit_binding ex \<and> binding ex' = binding ex
     \<and> atomic_offset ex' = atomic_offset ex
     \<and> constant_initializer ex' = constant_initializer ex
     \<and> has_initializer ex' = has_initializer ex
     \<and> invariant ex' = invariant ex \<and> centroid ex' = centroid ex"
  by (auto simp: validate_location_def split: if_splits)

lemma validate_binding_Continue:
  "validate_binding X v (p, ex) = Continue (p', ex') \<Longrightarrow>
     \<not> (explicit_binding v \<and> explicit_binding ex \<and> binding v \<noteq> binding ex)
     \<and> p' = p
     \<and> atomic_offset ex' = atomic_offset ex
     \<and> constant_initializer ex' = constant_initializer ex
     \<and> has_initializer ex' = has_initializer ex
     \<and> invariant ex' = invariant ex \<and> centroid ex' = centroid ex"
  by (auto simp: validate_binding_def split: if_splits)

lemma validate_atomic_offset_Continue:
  "validate_atomic_offset X v (p, ex) = Continue (p', ex') \<Longrightarrow>
     \<not> (contains_atomic X (var_type v) \<and> atomic_offset v \<noteq> atomic_offset ex)
     \<and> p' = p \<and> ex' = ex"
  by (auto simp: validate_atomic_offset_def split: if_splits)

lemma validate_frag_depth_Continue:
  "validate_frag_depth v (p, ex) = Continue (p', ex') \<Longrightarrow> ex' = ex"
  by (auto simp: validate_frag_depth_def Let_def split: if_splits)

lemma validate_constant_initializer_Continue:
  "validate_constant_initializer X v (p, ex) = Continue (p', ex') \<Longrightarrow>
     \<not> (\<exists>c e. constant_initializer v = Some c \<and> constant_initializer ex = Some e
              \<and> \<not> has_value X c e)
     \<and> p' = p
     \<and> has_initializer ex' = has_initializer ex
     \<and> invariant ex' = invariant ex \<and> centroid ex' = centroid ex"
  by (auto simp: validate_constant_initializer_def split: if_splits option.splits)

lemma validate_has_initializer_Continue:
  "validate_has_initializer v (p, ex) = Continue (p', ex') \<Longrightarrow>
     \<not> (has_initializer v \<and> constant_initializer v = None \<and> has_initializer ex)
     \<and> p' = p
     \<and> invariant ex' = invariant ex \<and> centroid ex' = centroid ex"
  by (auto simp: validate_has_initializer_def split: if_splits)

lemma validate_invariant_Continue:
  "validate_invariant X v (p, ex) = Continue (p', ex') \<Longrightarrow>
     invariant ex = invariant v \<and> p' = p \<and> ex' = ex"
  by (auto simp: validate_invariant_def split: if_splits)

lemma validate_centroid_Continue:
  "validate_centroid X v (p, ex) = Continue (p', ex') \<Longrightarrow>
     centroid ex = centroid v \<and> p' = p \<and> ex' = ex"
  by (auto simp: validate_centroid_def split: if_splits)

lemma cross_validate_pair_Continue:
  assumes "cross_validate_pair X v (p, ex) = Continue s'"
  shows "\<not> declarations_mismatch X v ex"
proof -
  from assms obtain s1 s2 s3 s4 s5 s6 s7 s8 where
    1: "validate_type X v (p, ex) = Continue s1" and
    2: "validate_location X v s1 = Continue s2" and
    3: "validate_binding X v s2 = Continue s3" and
    4: "validate_atomic_offset X v s3 = Continue s4" and
    5: "validate_frag_depth v s4 = Continue s5" and
    6: "validate_constant_initializer X v s5 = Continue s6" and
    7: "validate_has_initializer v s6 = Continue s7" and
    8: "validate_invariant X v s7 = Continue s8" and
    9: "validate_centroid X v s8 = Continue s'"
    unfolding cross_validate_pair_def and_then_Continue_iff by blast
  obtain p1 e1 where s1: "s1 = (p1, e1)" by (cases s1)
  obtain p2 e2 where s2: "s2 = (p2, e2)" by (cases s2)
  obtain p3 e3 where s3: "s3 = (p3, e3)" by (cases s3)
  obtain p4 e4 where s4: "s4 = (p4, e4)" by (cases s4)
  obtain p5 e5 where s5: "s5 = (p5, e5)" by (cases s5)
  obtain p6 e6 where s6: "s6 = (p6, e6)" by (cases s6)
  obtain p7 e7 where s7: "s7 = (p7, e7)" by (cases s7)
  obtain p8 e8 where s8: "s8 = (p8, e8)" by (cases s8)
  obtain p9 e9 where s9: "s' = (p9, e9)" by (cases s')
  note a = validate_type_Continue [OF 1 [unfolded s1]]
  note b = validate_location_Continue [OF 2 [unfolded s1 s2]]
  note c = validate_binding_Continue [OF 3 [unfolded s2 s3]]
  note d = validate_atomic_offset_Continue [OF 4 [unfolded s3 s4]]
  note e = validate_frag_depth_Continue [OF 5 [unfolded s4 s5]]
  note f = validate_constant_initializer_Continue [OF 6 [unfolded s5 s6]]
  note g = validate_has_initializer_Continue [OF 7 [unfolded s6 s7]]
  note h = validate_invariant_Continue [OF 8 [unfolded s7 s8]]
  note i = validate_centroid_Continue [OF 9 [unfolded s8 s9]]
  from a have m1: "\<not> type_mismatch v ex" by simp
  from a b have m2: "\<not> (explicit_location v \<and> explicit_location ex \<and> location v \<noteq> location ex)"
    by auto
  from a b c have m3: "\<not> (explicit_binding v \<and> explicit_binding ex \<and> binding v \<noteq> binding ex)"
    by auto
  from a b c d have m4: "\<not> (contains_atomic X (var_type v) \<and> atomic_offset v \<noteq> atomic_offset ex)"
    by auto
  from a b c d e f have m5: "\<not> (\<exists>c e. constant_initializer v = Some c \<and> constant_initializer ex = Some e \<and> \<not> has_value X c e)"
    by auto
  from a b c d e f g have m6: "\<not> (has_initializer v \<and> constant_initializer v = None \<and> has_initializer ex)"
    by auto
  from a b c d e f g h have m7: "invariant ex = invariant v" by auto
  from a b c d e f g h i have m8: "centroid ex = centroid v" by auto
  from m5 m6 have m56: "\<not> initializer_mismatch X v ex"
    by (auto simp: initializer_mismatch_def split: option.splits)
  from m1 m2 m3 m4 m56 m7 m8 show ?thesis
    unfolding declarations_mismatch_def by blast
qed

text \<open>What each step does to the log.\<close>

lemma error_logged_linker_error: "error_logged p (linker_error p msg)"
  unfolding error_logged_def linker_error_def
  by (auto intro: exI [of _ "[]"])

lemma step_log:
  "case validate_type X v (p, e) of
     Continue (p', e') \<Rightarrow> p' = p | Return (p', e') \<Rightarrow> error_logged p p'"
  "case validate_location X v (p, e) of
     Continue (p', e') \<Rightarrow> p' = p | Return (p', e') \<Rightarrow> error_logged p p'"
  "case validate_binding X v (p, e) of
     Continue (p', e') \<Rightarrow> p' = p | Return (p', e') \<Rightarrow> error_logged p p'"
  "case validate_atomic_offset X v (p, e) of
     Continue (p', e') \<Rightarrow> p' = p | Return (p', e') \<Rightarrow> error_logged p p'"
  "case validate_constant_initializer X v (p, e) of
     Continue (p', e') \<Rightarrow> p' = p | Return (p', e') \<Rightarrow> error_logged p p'"
  "case validate_has_initializer v (p, e) of
     Continue (p', e') \<Rightarrow> p' = p | Return (p', e') \<Rightarrow> error_logged p p'"
  "case validate_invariant X v (p, e) of
     Continue (p', e') \<Rightarrow> p' = p | Return (p', e') \<Rightarrow> error_logged p p'"
  "case validate_centroid X v (p, e) of
     Continue (p', e') \<Rightarrow> p' = p | Return (p', e') \<Rightarrow> error_logged p p'"
  by (simp_all add: validate_type_def validate_location_def validate_binding_def
      validate_atomic_offset_def validate_constant_initializer_def
      validate_has_initializer_def validate_invariant_def validate_centroid_def
      error_logged_linker_error split: option.splits)

lemma validate_frag_depth_log:
  "\<exists>p'. validate_frag_depth v (p, e) = Continue (p', e)
        \<and> (\<exists>earlier. InfoLog p' = InfoLog p @ earlier)"
  by (simp add: validate_frag_depth_def Let_def linker_error_def)

lemma error_logged_after:
  assumes "InfoLog p1 = InfoLog p @ earlier" and "error_logged p1 p'"
  shows "error_logged p p'"
  using assms unfolding error_logged_def
  by (metis append.assoc)

lemma step_logged_and_then:
  assumes "step_logged p r" and "\<And>p1 e. step_logged p1 (f (p1, e))"
  shows "step_logged p (and_then r f)"
proof (cases r)
  case (Return s)
  with assms(1) show ?thesis by simp
next
  case (Continue s)
  obtain p1 e where s: "s = (p1, e)" by (cases s)
  from assms(1) Continue s obtain earlier where l: "InfoLog p1 = InfoLog p @ earlier"
    by (auto simp: step_logged_def)
  show ?thesis
  proof (cases "f (p1, e)")
    case (Return s')
    with assms(2) [of p1 e] have "error_logged p1 (fst s')"
      by (cases s') (simp add: step_logged_def)
    from error_logged_after [OF l this] Return Continue s show ?thesis
      by (cases s') (simp add: step_logged_def)
  next
    case (Continue s') note c = this
    with assms(2) [of p1 e] obtain more_text where "InfoLog (fst s') = InfoLog p1 @ more_text"
      by (cases s') (auto simp: step_logged_def)
    with l have "InfoLog (fst s') = InfoLog p @ earlier @ more_text" by simp
    with c \<open>r = Continue s\<close> s show ?thesis
      by (cases s') (auto simp: step_logged_def)
  qed
qed

lemma steps_logged:
  "step_logged p (validate_type X v (p, e))"
  "step_logged p (validate_location X v (p, e))"
  "step_logged p (validate_binding X v (p, e))"
  "step_logged p (validate_atomic_offset X v (p, e))"
  "step_logged p (validate_frag_depth v (p, e))"
  "step_logged p (validate_constant_initializer X v (p, e))"
  "step_logged p (validate_has_initializer v (p, e))"
  "step_logged p (validate_invariant X v (p, e))"
  "step_logged p (validate_centroid X v (p, e))"
proof -
  have l: "InfoLog p = InfoLog p @ []" by simp
  show "step_logged p (validate_type X v (p, e))"
    using step_log(1) [where X = X and v = v and p = p and e = e] l
    by (auto simp: step_logged_def split: flow.splits)
  show "step_logged p (validate_location X v (p, e))"
    using step_log(2) [where X = X and v = v and p = p and e = e] l
    by (auto simp: step_logged_def split: flow.splits)
  show "step_logged p (validate_binding X v (p, e))"
    using step_log(3) [where X = X and v = v and p = p and e = e] l
    by (auto simp: step_logged_def split: flow.splits)
  show "step_logged p (validate_atomic_offset X v (p, e))"
    using step_log(4) [where X = X and v = v and p = p and e = e] l
    by (auto simp: step_logged_def split: flow.splits)
  show "step_logged p (validate_frag_depth v (p, e))"
    using validate_frag_depth_log [where v = v and p = p and e = e]
    by (auto simp: step_logged_def split: flow.splits)
  show "step_logged p (validate_constant_initializer X v (p, e))"
    using step_log(5) [where X = X and v = v and p = p and e = e] l
    by (auto simp: step_logged_def split: flow.splits)
  show "step_logged p (validate_has_initializer v (p, e))"
    using step_log(6) [where v = v and p = p and e = e] l
    by (auto simp: step_logged_def split: flow.splits)
  show "step_logged p (validate_invariant X v (p, e))"
    using step_log(7) [where X = X and v = v and p = p and e = e] l
    by (auto simp: step_logged_def split: flow.splits)
  show "step_logged p (validate_centroid X v (p, e))"
    using step_log(8) [where X = X and v = v and p = p and e = e] l
    by (auto simp: step_logged_def split: flow.splits)
qed

lemma cross_validate_pair_logged: "step_logged p (cross_validate_pair X v (p, ex))"
  unfolding cross_validate_pair_def
  by (intro step_logged_and_then steps_logged)

lemma cross_validate_pair_Return:
  "cross_validate_pair X v (p, ex) = Return (p', ex') \<Longrightarrow> error_logged p p'"
  using cross_validate_pair_logged [of p X v ex] by (simp add: step_logged_def)

text \<open>The result of the whole branch, step by step.\<close>

lemma mismatch_report_None:
  "mismatch_report X v existing = None \<longleftrightarrow> \<not> declarations_mismatch X v existing"
  by (simp add: mismatch_report_def declarations_mismatch_def)

lemma validate_frag_depth_reports:
  "validate_frag_depth v (p, ex)
     = Continue (foldl linker_error p (frag_depth_reports v ex), ex)"
  by (simp add: validate_frag_depth_def frag_depth_reports_def Let_def)

lemma foldl_linker_error_log:
  "\<exists>earlier. InfoLog (foldl linker_error p msgs) = InfoLog p @ earlier"
proof (induction msgs arbitrary: p)
  case Nil
  show ?case by simp
next
  case (Cons m msgs)
  from Cons [of "linker_error p m"] show ?case
    by (auto simp: linker_error_def)
qed

lemma step_Return_report:
  "validate_type X v (p, ex) = Return s \<Longrightarrow>
     type_mismatch v ex
     \<and> s = (linker_error p (mode_string X v @ '' `'' @ name v @ ''' declared as type `''
              @ type_name X (var_type v) @ ''' and type `''
              @ type_name X (var_type ex) @ '''\<newline>''), ex)"
  "validate_location X v (p, ex) = Return s \<Longrightarrow>
     explicit_location v \<and> explicit_location ex \<and> location v \<noteq> location ex
     \<and> s = (linker_error p (''explicit locations for '' @ mode_string X v @ '' `'' @ name v
              @ ''' have differing values\<newline>''), ex)"
  "validate_binding X v (p, ex) = Return s \<Longrightarrow>
     explicit_binding v \<and> explicit_binding ex \<and> binding v \<noteq> binding ex
     \<and> s = (linker_error p (''explicit bindings for '' @ mode_string X v @ '' `'' @ name v
              @ ''' have differing values\<newline>''), ex)"
  "validate_atomic_offset X v (p, ex) = Return s \<Longrightarrow>
     contains_atomic X (var_type v) \<and> atomic_offset v \<noteq> atomic_offset ex
     \<and> s = (linker_error p (''offset specifications for '' @ mode_string X v @ '' `'' @ name v
              @ ''' have differing values\<newline>''), ex)"
  "validate_constant_initializer X v (p, ex) = Return s \<Longrightarrow>
     (\<exists>c e. constant_initializer v = Some c \<and> constant_initializer ex = Some e
            \<and> \<not> has_value X c e)
     \<and> s = (linker_error p (''initializers for '' @ mode_string X v @ '' `'' @ name v
                 @ ''' have differing values\<newline>''), ex)"
  "validate_has_initializer v (p, ex) = Return s \<Longrightarrow>
     has_initializer v \<and> has_initializer ex
     \<and> (constant_initializer v = None \<or> constant_initializer ex = None)
     \<and> s = (linker_error p (''shared global variable `'' @ name v
                 @ ''' has multiple non-constant initializers.\<newline>''), ex)"
  "validate_invariant X v (p, ex) = Return s \<Longrightarrow>
     invariant ex \<noteq> invariant v
     \<and> s = (linker_error p (''declarations for '' @ mode_string X v @ '' `'' @ name v
              @ ''' have mismatching invariant qualifiers\<newline>''), ex)"
  "validate_centroid X v (p, ex) = Return s \<Longrightarrow>
     centroid ex \<noteq> centroid v
     \<and> s = (linker_error p (''declarations for '' @ mode_string X v @ '' `'' @ name v
              @ ''' have mismatching centroid qualifiers\<newline>''), ex)"
proof -
  show "validate_type X v (p, ex) = Return s \<Longrightarrow>
     type_mismatch v ex
     \<and> s = (linker_error p (mode_string X v @ '' `'' @ name v @ ''' declared as type `''
              @ type_name X (var_type v) @ ''' and type `''
              @ type_name X (var_type ex) @ '''\<newline>''), ex)"
    by (auto simp: validate_type_def type_mismatch_def split: if_splits)
  show "validate_location X v (p, ex) = Return s \<Longrightarrow>
     explicit_location v \<and> explicit_location ex \<and> location v \<noteq> location ex
     \<and> s = (linker_error p (''explicit locations for '' @ mode_string X v @ '' `'' @ name v
              @ ''' have differing values\<newline>''), ex)"
    by (auto simp: validate_location_def split: if_splits)
  show "validate_binding X v (p, ex) = Return s \<Longrightarrow>
     explicit_binding v \<and> explicit_binding ex \<and> binding v \<noteq> binding ex
     \<and> s = (linker_error p (''explicit bindings for '' @ mode_string X v @ '' `'' @ name v
              @ ''' have differing values\<newline>''), ex)"
    by (auto simp: validate_binding_def split: if_splits)
  show "validate_atomic_offset X v (p, ex) = Return s \<Longrightarrow>
     contains_atomic X (var_type v) \<and> atomic_offset v \<noteq> atomic_offset ex
     \<and> s = (linker_error p (''offset specifications for '' @ mode_string X v @ '' `'' @ name v
              @ ''' have differing values\<newline>''), ex)"
    by (auto simp: validate_atomic_offset_def split: if_splits)
  show "validate_constant_initializer X v (p, ex) = Return s \<Longrightarrow>
     (\<exists>c e. constant_initializer v = Some c \<and> constant_initializer ex = Some e
            \<and> \<not> has_value X c e)
     \<and> s = (linker_error p (''initializers for '' @ mode_string X v @ '' `'' @ name v
                 @ ''' have differing values\<newline>''), ex)"
    by (auto simp: validate_constant_initializer_def split: if_splits option.splits)
  show "validate_has_initializer v (p, ex) = Return s \<Longrightarrow>
     has_initializer v \<and> has_initializer ex
     \<and> (constant_initializer v = None \<or> constant_initializer ex = None)
     \<and> s = (linker_error p (''shared global variable `'' @ name v
                 @ ''' has multiple non-constant initializers.\<newline>''), ex)"
    by (auto simp: validate_has_initializer_def split: if_splits)
  show "validate_invariant X v (p, ex) = Return s \<Longrightarrow>
     invariant ex \<noteq> invariant v
     \<and> s = (linker_error p (''declarations for '' @ mode_string X v @ '' `'' @ name v
              @ ''' have mismatching invariant qualifiers\<newline>''), ex)"
    by (auto simp: validate_invariant_def split: if_splits)
  show "validate_centroid X v (p, ex) = Return s \<Longrightarrow>
     centroid ex \<noteq> centroid v
     \<and> s = (linker_error p (''declarations for '' @ mode_string X v @ '' `'' @ name v
              @ ''' have mismatching centroid qualifiers\<newline>''), ex)"
    by (auto simp: validate_centroid_def split: if_splits)
qed

lemma validate_constant_initializer_adopts:
  "validate_constant_initializer X v (p, ex) = Continue (p', ex') \<Longrightarrow>
     (constant_initializer v \<noteq> None \<longrightarrow> constant_initializer ex' \<noteq> None)
     \<and> (constant_initializer v = None \<longrightarrow> constant_initializer ex' = constant_initializer ex)"
  by (auto simp: validate_constant_initializer_def split: if_splits option.splits)

lemma step_Continue_depth_layout:
  "validate_type X v (p, ex) = Continue (p', ex') \<Longrightarrow> depth_layout ex' = depth_layout ex"
  "validate_location X v (p, ex) = Continue (p', ex') \<Longrightarrow> depth_layout ex' = depth_layout ex"
  "validate_binding X v (p, ex) = Continue (p', ex') \<Longrightarrow> depth_layout ex' = depth_layout ex"
  "validate_atomic_offset X v (p, ex) = Continue (p', ex') \<Longrightarrow>
     depth_layout ex' = depth_layout ex"
proof -
  show "validate_type X v (p, ex) = Continue (p', ex') \<Longrightarrow> depth_layout ex' = depth_layout ex"
    by (auto simp: validate_type_def split: if_splits)
  show "validate_location X v (p, ex) = Continue (p', ex') \<Longrightarrow>
     depth_layout ex' = depth_layout ex"
    by (auto simp: validate_location_def split: if_splits)
  show "validate_binding X v (p, ex) = Continue (p', ex') \<Longrightarrow>
     depth_layout ex' = depth_layout ex"
    by (auto simp: validate_binding_def split: if_splits)
  show "validate_atomic_offset X v (p, ex) = Continue (p', ex') \<Longrightarrow>
     depth_layout ex' = depth_layout ex"
    by (auto simp: validate_atomic_offset_def split: if_splits)
qed

lemma frag_depth_reports_cong:
  "depth_layout ex' = depth_layout ex \<Longrightarrow> frag_depth_reports v ex' = frag_depth_reports v ex"
  by (simp add: frag_depth_reports_def)

lemma report_Return:
  assumes "cross_validate_pair X v (prog, existing) = Return (linker_error p msg, ex)"
    and "mismatch_report X v existing = Some msg"
    and "logged_before_report X v existing prog = p"
  shows "\<exists>existing'. cross_validate_pair X v (prog, existing) =
     (case mismatch_report X v existing of
        Some msg \<Rightarrow>
          Return (linker_error (logged_before_report X v existing prog) msg, existing')
      | None \<Rightarrow> Continue (foldl linker_error prog (frag_depth_reports v existing), existing'))"
  using assms by simp

lemma cross_validate_pair_report:
  "\<exists>existing'. cross_validate_pair X v (prog, existing) =
     (case mismatch_report X v existing of
        Some msg \<Rightarrow>
          Return (linker_error (logged_before_report X v existing prog) msg, existing')
      | None \<Rightarrow> Continue (foldl linker_error prog (frag_depth_reports v existing), existing'))"
proof (cases "validate_type X v (prog, existing)")
  case (Return s)
  note m = step_Return_report(1) [OF Return]
  from Return m have r: "cross_validate_pair X v (prog, existing) = Return
      (linker_error prog (mode_string X v @ '' `'' @ name v @ ''' declared as type `''
              @ type_name X (var_type v) @ ''' and type `''
              @ type_name X (var_type existing) @ '''\<newline>''), existing)"
    by (simp add: cross_validate_pair_def)
  from m have "mismatch_report X v existing =
      Some (mode_string X v @ '' `'' @ name v @ ''' declared as type `''
              @ type_name X (var_type v) @ ''' and type `''
              @ type_name X (var_type existing) @ '''\<newline>'')"
    by (simp add: mismatch_report_def)
  moreover from m have "logged_before_report X v existing prog = prog"
    by (simp add: logged_before_report_def early_mismatch_def)
  ultimately show ?thesis by (rule report_Return [OF r])
next
  case (Continue s1) note 1 = this
  obtain p1 e1 where s1: "s1 = (p1, e1)" by (cases s1)
  note a = validate_type_Continue [OF 1 [unfolded s1]]
  note a' = step_Continue_depth_layout(1) [OF 1 [unfolded s1]]
  from a have p1: "p1 = prog" by simp
  note 1 = 1 [unfolded s1 p1]
  from a have n1: "\<not> type_mismatch v existing" by simp
  show ?thesis
  proof (cases "validate_location X v (prog, e1)")
    case (Return s)
    note m = step_Return_report(2) [OF Return]
    from 1 Return m have r: "cross_validate_pair X v (prog, existing) = Return
      (linker_error prog (''explicit locations for '' @ mode_string X v @ '' `'' @ name v
              @ ''' have differing values\<newline>''), e1)"
      by (simp add: cross_validate_pair_def)
    from m a have k: "explicit_location v \<and> explicit_location existing
        \<and> location v \<noteq> location existing" by simp
    from n1 k have "mismatch_report X v existing =
      Some (''explicit locations for '' @ mode_string X v @ '' `'' @ name v
              @ ''' have differing values\<newline>'')"
      by (simp add: mismatch_report_def)
    moreover from k have "logged_before_report X v existing prog = prog"
      by (simp add: logged_before_report_def early_mismatch_def)
    ultimately show ?thesis by (rule report_Return [OF r])
  next
    case (Continue s2) note 2 = this
    obtain p2 e2 where s2: "s2 = (p2, e2)" by (cases s2)
    note b = validate_location_Continue [OF 2 [unfolded s2]]
    note b' = step_Continue_depth_layout(2) [OF 2 [unfolded s2]]
    from b have p2: "p2 = prog" by simp
    note 2 = 2 [unfolded s2 p2]
    from a b have n2: "\<not> (explicit_location v \<and> explicit_location existing
        \<and> location v \<noteq> location existing)" by auto
    show ?thesis
    proof (cases "validate_binding X v (prog, e2)")
      case (Return s)
      note m = step_Return_report(3) [OF Return]
      from 1 2 Return m have r: "cross_validate_pair X v (prog, existing) = Return
        (linker_error prog (''explicit bindings for '' @ mode_string X v @ '' `'' @ name v
              @ ''' have differing values\<newline>''), e2)"
        by (simp add: cross_validate_pair_def)
      from m a b have k: "explicit_binding v \<and> explicit_binding existing
          \<and> binding v \<noteq> binding existing" by simp
      from n1 n2 k have "mismatch_report X v existing =
        Some (''explicit bindings for '' @ mode_string X v @ '' `'' @ name v
              @ ''' have differing values\<newline>'')"
        by (simp add: mismatch_report_def)
      moreover from k have "logged_before_report X v existing prog = prog"
        by (simp add: logged_before_report_def early_mismatch_def)
      ultimately show ?thesis by (rule report_Return [OF r])
    next
      case (Continue s3) note 3 = this
      obtain p3 e3 where s3: "s3 = (p3, e3)" by (cases s3)
      note c = validate_binding_Continue [OF 3 [unfolded s3]]
      note c' = step_Continue_depth_layout(3) [OF 3 [unfolded s3]]
      from c have p3: "p3 = prog" by simp
      note 3 = 3 [unfolded s3 p3]
      from a b c have n3: "\<not> (explicit_binding v \<and> explicit_binding existing
          \<and> binding v \<noteq> binding existing)" by auto
      show ?thesis
      proof (cases "validate_atomic_offset X v (prog, e3)")
        case (Return s)
        note m = step_Return_report(4) [OF Return]
        from 1 2 3 Return m have r: "cross_validate_pair X v (prog, existing) = Return
          (linker_error prog (''offset specifications for '' @ mode_string X v @ '' `''
              @ name v @ ''' have differing values\<newline>''), e3)"
          by (simp add: cross_validate_pair_def)
        from m a b c have k: "contains_atomic X (var_type v)
            \<and> atomic_offset v \<noteq> atomic_offset existing" by simp
        from n1 n2 n3 k have "mismatch_report X v existing =
          Some (''offset specifications for '' @ mode_string X v @ '' `''
              @ name v @ ''' have differing values\<newline>'')"
          by (simp add: mismatch_report_def)
        moreover from k have "logged_before_report X v existing prog = prog"
          by (simp add: logged_before_report_def early_mismatch_def)
        ultimately show ?thesis by (rule report_Return [OF r])
      next
        case (Continue s4) note 4 = this
        obtain p4 e4 where s4: "s4 = (p4, e4)" by (cases s4)
        note d = validate_atomic_offset_Continue [OF 4 [unfolded s4]]
        from d have p4: "p4 = prog" and e4: "e4 = e3" by simp_all
        note 4 = 4 [unfolded s4 p4 e4]
        from a b c d have n4: "\<not> (contains_atomic X (var_type v)
            \<and> atomic_offset v \<noteq> atomic_offset existing)" by auto
        from n1 n2 n3 n4 have early: "\<not> early_mismatch X v existing"
          by (simp add: early_mismatch_def)
        define pd where "pd = foldl linker_error prog (frag_depth_reports v existing)"
        from a' b' c' have "depth_layout e3 = depth_layout existing" by simp
        from frag_depth_reports_cong [OF this, of v]
        have 5: "validate_frag_depth v (prog, e3) = Continue (pd, e3)"
          unfolding pd_def validate_frag_depth_reports by simp
        from early have lb: "logged_before_report X v existing prog = pd"
          by (simp add: logged_before_report_def pd_def)
        from a b c have ci: "constant_initializer e3 = constant_initializer existing"
          and hi: "has_initializer e3 = has_initializer existing"
          and iv: "invariant e3 = invariant existing"
          and ce: "centroid e3 = centroid existing"
          by simp_all
        show ?thesis
        proof (cases "validate_constant_initializer X v (pd, e3)")
          case (Return s)
          note m = step_Return_report(5) [OF Return]
          from 1 2 3 4 5 Return m have r: "cross_validate_pair X v (prog, existing) = Return
            (linker_error pd (''initializers for '' @ mode_string X v @ '' `'' @ name v
                 @ ''' have differing values\<newline>''), e3)"
            by (simp add: cross_validate_pair_def)
          from m ci have k: "initializer_mismatch X v existing"
            "constant_initializer v \<noteq> None"
            by (auto simp: initializer_mismatch_def)
          from n1 n2 n3 n4 k have "mismatch_report X v existing =
            Some (''initializers for '' @ mode_string X v @ '' `'' @ name v
                 @ ''' have differing values\<newline>'')"
            by (simp add: mismatch_report_def)
          then show ?thesis using lb by (rule report_Return [OF r])
        next
          case (Continue s6) note 6 = this
          obtain p6 e6 where s6: "s6 = (p6, e6)" by (cases s6)
          note f = validate_constant_initializer_Continue [OF 6 [unfolded s6]]
          note f' = validate_constant_initializer_adopts [OF 6 [unfolded s6]]
          from f have p6: "p6 = pd" by simp
          note 6 = 6 [unfolded s6 p6]
          from f ci have n5: "\<not> (\<exists>c e. constant_initializer v = Some c
              \<and> constant_initializer existing = Some e \<and> \<not> has_value X c e)" by simp
          show ?thesis
          proof (cases "validate_has_initializer v (pd, e6)")
            case (Return s)
            note m = step_Return_report(6) [OF Return]
            from 1 2 3 4 5 6 Return m
            have r: "cross_validate_pair X v (prog, existing) = Return
              (linker_error pd (''shared global variable `'' @ name v
                 @ ''' has multiple non-constant initializers.\<newline>''), e6)"
              by (simp add: cross_validate_pair_def)
            from m f' have cn: "constant_initializer v = None" by auto
            from m f hi have "has_initializer v \<and> has_initializer existing" by simp
            with cn have k: "initializer_mismatch X v existing"
              by (simp add: initializer_mismatch_def)
            from n1 n2 n3 n4 k cn have "mismatch_report X v existing =
              Some (''shared global variable `'' @ name v
                 @ ''' has multiple non-constant initializers.\<newline>'')"
              by (simp add: mismatch_report_def)
            then show ?thesis using lb by (rule report_Return [OF r])
          next
            case (Continue s7) note 7 = this
            obtain p7 e7 where s7: "s7 = (p7, e7)" by (cases s7)
            note g = validate_has_initializer_Continue [OF 7 [unfolded s7]]
            from g have p7: "p7 = pd" by simp
            note 7 = 7 [unfolded s7 p7]
            from g f hi have n6: "\<not> (has_initializer v \<and> constant_initializer v = None
                \<and> has_initializer existing)" by simp
            from n5 n6 have n56: "\<not> initializer_mismatch X v existing"
              by (auto simp: initializer_mismatch_def split: option.splits)
            from g f iv ce have iv7: "invariant e7 = invariant existing"
              and ce7: "centroid e7 = centroid existing" by simp_all
            show ?thesis
            proof (cases "validate_invariant X v (pd, e7)")
              case (Return s)
              note m = step_Return_report(7) [OF Return]
              from 1 2 3 4 5 6 7 Return m
              have r: "cross_validate_pair X v (prog, existing) = Return
                (linker_error pd (''declarations for '' @ mode_string X v @ '' `'' @ name v
                   @ ''' have mismatching invariant qualifiers\<newline>''), e7)"
                by (simp add: cross_validate_pair_def)
              from m iv7 have k: "invariant existing \<noteq> invariant v" by simp
              from n1 n2 n3 n4 n56 k have "mismatch_report X v existing =
                Some (''declarations for '' @ mode_string X v @ '' `'' @ name v
                   @ ''' have mismatching invariant qualifiers\<newline>'')"
                by (simp add: mismatch_report_def)
              then show ?thesis using lb by (rule report_Return [OF r])
            next
              case (Continue s8) note 8 = this
              obtain p8 e8 where s8: "s8 = (p8, e8)" by (cases s8)
              note h = validate_invariant_Continue [OF 8 [unfolded s8]]
              from h have p8: "p8 = pd" and e8: "e8 = e7" by simp_all
              note 8 = 8 [unfolded s8 p8 e8]
              from h iv7 have n7: "invariant existing = invariant v" by simp
              show ?thesis
              proof (cases "validate_centroid X v (pd, e7)")
                case (Return s)
                note m = step_Return_report(8) [OF Return]
                from 1 2 3 4 5 6 7 8 Return m
                have r: "cross_validate_pair X v (prog, existing) = Return
                  (linker_error pd (''declarations for '' @ mode_string X v @ '' `'' @ name v
                     @ ''' have mismatching centroid qualifiers\<newline>''), e7)"
                  by (simp add: cross_validate_pair_def)
                from m ce7 have k: "centroid existing \<noteq> centroid v" by simp
                from n1 n2 n3 n4 n56 n7 k have "mismatch_report X v existing =
                  Some (''declarations for '' @ mode_string X v @ '' `'' @ name v
                     @ ''' have mismatching centroid qualifiers\<newline>'')"
                  by (simp add: mismatch_report_def)
                then show ?thesis using lb by (rule report_Return [OF r])
              next
                case (Continue s9) note 9 = this
                obtain p9 e9 where s9: "s9 = (p9, e9)" by (cases s9)
                note i = validate_centroid_Continue [OF 9 [unfolded s9]]
                from i have p9: "p9 = pd" by simp
                from i ce7 have n8: "centroid existing = centroid v" by simp
                from 1 2 3 4 5 6 7 8 9 s9 p9
                have r: "cross_validate_pair X v (prog, existing) = Continue (pd, e9)"
                  by (simp add: cross_validate_pair_def)
                from n1 n2 n3 n4 n56 n7 n8 have "mismatch_report X v existing = None"
                  by (simp add: mismatch_report_def)
                with r show ?thesis by (simp add: pd_def)
              qed
            qed
          qed
        qed
      qed
    qed
  qed
qed

text \<open>
  Claim C1, as amended. When a declaration meets the first-seen declaration of the same
  name and the two mismatch (type, explicit location, explicit binding, atomic counter
  offset, initializer, invariant or centroid qualifier), the validator appends the error of
  the first mismatch in the order of the checks, which names the variable, clears
  \<open>LinkStatus\<close> and returns at once: the run over the shaders ends with the state of that
  pair, whatever declarations and shaders follow. The \<open>gl_FragDepth\<close> layout check alone
  logs its errors without returning: it appends the errors of \<open>frag_depth_reports\<close> and goes
  on, so that these errors stand in the log before the error of a mismatch that a later
  check finds, and a pair with no mismatch adds these errors and nothing else to the log.
\<close>

theorem mismatch_is_logged_and_returns:
  "(declarations_mismatch X v existing \<longrightarrow>
      (\<exists>msg existing'.
          mismatch_report X v existing = Some msg
          \<and> cross_validate_pair X v (prog, existing)
              = Return (linker_error (logged_before_report X v existing prog) msg, existing')
          \<and> error_logged prog (linker_error (logged_before_report X v existing prog) msg)
          \<and> (\<not> (uniforms_only \<and> mode v \<noteq> ir_var_uniform) \<and> mode v \<noteq> ir_var_temporary
               \<and> variables (name v) = Some existing \<longrightarrow>
               cross_validate_shaders X uniforms_only
                 (Some (shader\<lparr>ir := Variable v # rest\<rparr>) # others) (prog, variables)
                 = Return (linker_error (logged_before_report X v existing prog) msg,
                           variables(name v \<mapsto> existing')))))
   \<and> validate_frag_depth v (prog, existing)
       = Continue (foldl linker_error prog (frag_depth_reports v existing), existing)
   \<and> (\<not> declarations_mismatch X v existing \<longrightarrow>
        (\<exists>existing'. cross_validate_pair X v (prog, existing)
           = Continue (foldl linker_error prog (frag_depth_reports v existing), existing')))"
proof (intro conjI impI)
  assume m: "declarations_mismatch X v existing"
  with mismatch_report_None [of X v existing]
  obtain msg where r: "mismatch_report X v existing = Some msg"
    by (cases "mismatch_report X v existing") auto
  let ?p = "logged_before_report X v existing prog"
  from cross_validate_pair_report [of X v prog existing] r
  obtain existing' where
    c: "cross_validate_pair X v (prog, existing) = Return (linker_error ?p msg, existing')"
    by auto
  from foldl_linker_error_log [of prog "frag_depth_reports v existing"]
  obtain earlier where "InfoLog ?p = InfoLog prog @ earlier"
    by (cases "early_mismatch X v existing") (auto simp: logged_before_report_def)
  from error_logged_after [OF this error_logged_linker_error]
  have e: "error_logged prog (linker_error ?p msg)" .
  have s: "\<not> (uniforms_only \<and> mode v \<noteq> ir_var_uniform) \<and> mode v \<noteq> ir_var_temporary
               \<and> variables (name v) = Some existing \<longrightarrow>
               cross_validate_shaders X uniforms_only
                 (Some (shader\<lparr>ir := Variable v # rest\<rparr>) # others) (prog, variables)
                 = Return (linker_error ?p msg, variables(name v \<mapsto> existing'))"
    using c by simp
  from r c e s
  show "\<exists>msg existing'.
          mismatch_report X v existing = Some msg
          \<and> cross_validate_pair X v (prog, existing)
              = Return (linker_error (logged_before_report X v existing prog) msg, existing')
          \<and> error_logged prog (linker_error (logged_before_report X v existing prog) msg)
          \<and> (\<not> (uniforms_only \<and> mode v \<noteq> ir_var_uniform) \<and> mode v \<noteq> ir_var_temporary
               \<and> variables (name v) = Some existing \<longrightarrow>
               cross_validate_shaders X uniforms_only
                 (Some (shader\<lparr>ir := Variable v # rest\<rparr>) # others) (prog, variables)
                 = Return (linker_error (logged_before_report X v existing prog) msg,
                           variables(name v \<mapsto> existing')))"
    by blast
next
  show "validate_frag_depth v (prog, existing)
       = Continue (foldl linker_error prog (frag_depth_reports v existing), existing)"
    by (rule validate_frag_depth_reports)
next
  assume "\<not> declarations_mismatch X v existing"
  with mismatch_report_None [of X v existing]
  have "mismatch_report X v existing = None" by simp
  with cross_validate_pair_report [of X v prog existing]
  show "\<exists>existing'. cross_validate_pair X v (prog, existing)
           = Continue (foldl linker_error prog (frag_depth_reports v existing), existing')"
    by simp
qed

lemmas example_defs = example_collaborators_def plain_variable_def empty_program_def
  empty_symbols_def

theorem mismatch_is_logged_and_returns_witness:
  "declarations_mismatch example_collaborators
      ((plain_variable ''a'' (glsl_basic ''vec4'') ir_var_shader_in)\<lparr>explicit_location := True, location := 2\<rparr>)
      ((plain_variable ''a'' (glsl_basic ''vec4'') ir_var_shader_in)\<lparr>explicit_location := True, location := 1\<rparr>)
   \<and> (\<exists>existing'.
         cross_validate_pair example_collaborators
            ((plain_variable ''a'' (glsl_basic ''vec4'') ir_var_shader_in)\<lparr>explicit_location := True, location := 2\<rparr>)
            (empty_program, ((plain_variable ''a'' (glsl_basic ''vec4'') ir_var_shader_in)\<lparr>explicit_location := True, location := 1\<rparr>))
           = Return (empty_program
                       \<lparr>InfoLog := ''error: explicit locations for shader input `a' have differing values\<newline>'',
                        LinkStatus := False\<rparr>, existing')
         \<and> cross_validate_shaders example_collaborators False
              [Some \<lparr>Type = MESA_SHADER_VERTEX,
                     ir = [Variable ((plain_variable ''a'' (glsl_basic ''vec4'') ir_var_shader_in)\<lparr>explicit_location := True, location := 2\<rparr>),
                           Variable (plain_variable ''b'' (glsl_basic ''int'') ir_var_uniform)],
                     symbols = empty_symbols\<rparr>]
              (empty_program,
               [''a'' \<mapsto> (plain_variable ''a'' (glsl_basic ''vec4'') ir_var_shader_in)\<lparr>explicit_location := True, location := 1\<rparr>])
           = Return (empty_program
                       \<lparr>InfoLog := ''error: explicit locations for shader input `a' have differing values\<newline>'',
                        LinkStatus := False\<rparr>, [''a'' \<mapsto> existing']))
   \<and> \<not> declarations_mismatch example_collaborators
      ((plain_variable ''gl_FragDepth'' (glsl_basic ''float'') ir_var_shader_out)\<lparr>depth_layout := ir_depth_layout_greater, used := True\<rparr>)
      (plain_variable ''gl_FragDepth'' (glsl_basic ''float'') ir_var_shader_out)
   \<and> (\<exists>existing'.
         cross_validate_pair example_collaborators
            ((plain_variable ''gl_FragDepth'' (glsl_basic ''float'') ir_var_shader_out)\<lparr>depth_layout := ir_depth_layout_greater, used := True\<rparr>)
            (empty_program, plain_variable ''gl_FragDepth'' (glsl_basic ''float'') ir_var_shader_out)
           = Continue (empty_program
                       \<lparr>InfoLog := ''error: All redeclarations of gl_FragDepth in all fragment shaders in a single program must have the same set of qualifiers.''
                                    @ ''error: If gl_FragDepth is redeclared with a layout qualifier in any fragment shader, it must be redeclared with the same layout qualifier in all fragment shaders that have assignments to gl_FragDepth'',
                        LinkStatus := False\<rparr>, existing'))"
proof -
  let ?a2 = "(plain_variable ''a'' (glsl_basic ''vec4'') ir_var_shader_in)\<lparr>explicit_location := True, location := 2\<rparr>"
  let ?a1 = "(plain_variable ''a'' (glsl_basic ''vec4'') ir_var_shader_in)\<lparr>explicit_location := True, location := 1\<rparr>"
  let ?b = "plain_variable ''b'' (glsl_basic ''int'') ir_var_uniform"
  let ?d2 = "(plain_variable ''gl_FragDepth'' (glsl_basic ''float'') ir_var_shader_out)\<lparr>depth_layout := ir_depth_layout_greater, used := True\<rparr>"
  let ?d1 = "plain_variable ''gl_FragDepth'' (glsl_basic ''float'') ir_var_shader_out"
  let ?unit = "\<lparr>Type = MESA_SHADER_VERTEX, ir = [], symbols = empty_symbols\<rparr>"
  let ?msg = "''explicit locations for shader input `a' have differing values\<newline>''"
  let ?failed = "empty_program
                  \<lparr>InfoLog := ''error: explicit locations for shader input `a' have differing values\<newline>'',
                   LinkStatus := False\<rparr>"
  let ?logged = "empty_program
               \<lparr>InfoLog := ''error: All redeclarations of gl_FragDepth in all fragment shaders in a single program must have the same set of qualifiers.''
                            @ ''error: If gl_FragDepth is redeclared with a layout qualifier in any fragment shader, it must be redeclared with the same layout qualifier in all fragment shaders that have assignments to gl_FragDepth'',
                LinkStatus := False\<rparr>"
  have h1: "declarations_mismatch example_collaborators ?a2 ?a1"
    by (simp add: declarations_mismatch_def plain_variable_def)
  have h2: "\<not> declarations_mismatch example_collaborators ?d2 ?d1"
    by (simp add: declarations_mismatch_def type_mismatch_def initializer_mismatch_def
        example_defs)
  have g: "\<not> (False \<and> mode ?a2 \<noteq> ir_var_uniform) \<and> mode ?a2 \<noteq> ir_var_temporary
           \<and> [''a'' \<mapsto> ?a1] (name ?a2) = Some ?a1"
    by (simp add: plain_variable_def)
  have m: "mismatch_report example_collaborators ?a2 ?a1 = Some ?msg"
    by (simp add: mismatch_report_def type_mismatch_def example_defs)
  have l: "linker_error (logged_before_report example_collaborators ?a2 ?a1 empty_program) ?msg
           = ?failed"
    by (simp add: logged_before_report_def early_mismatch_def linker_error_def example_defs)
  have u: "?unit\<lparr>ir := Variable ?a2 # [Variable ?b]\<rparr>
           = \<lparr>Type = MESA_SHADER_VERTEX, ir = [Variable ?a2, Variable ?b],
              symbols = empty_symbols\<rparr>"
    by simp
  have n: "[''a'' \<mapsto> ?a1](name ?a2 \<mapsto> x) = [''a'' \<mapsto> x]" for x
    by (simp add: plain_variable_def)
  have f: "foldl linker_error empty_program (frag_depth_reports ?d2 ?d1) = ?logged"
    by (simp add: frag_depth_reports_def linker_error_def example_defs)
  from mismatch_is_logged_and_returns
         [where X = example_collaborators and v = ?a2 and existing = ?a1
            and prog = empty_program and uniforms_only = False
            and variables = "[''a'' \<mapsto> ?a1]" and shader = ?unit
            and rest = "[Variable ?b]" and others = "[]"]
       h1 g
  obtain existing' where
    "cross_validate_pair example_collaborators ?a2 (empty_program, ?a1)
      = Return (linker_error (logged_before_report example_collaborators ?a2 ?a1 empty_program)
                  ?msg, existing')"
    "cross_validate_shaders example_collaborators False
       [Some (?unit\<lparr>ir := Variable ?a2 # [Variable ?b]\<rparr>)] (empty_program, [''a'' \<mapsto> ?a1])
      = Return (linker_error (logged_before_report example_collaborators ?a2 ?a1 empty_program)
                  ?msg, [''a'' \<mapsto> ?a1](name ?a2 \<mapsto> existing'))"
    unfolding m by blast
  then have r1: "\<exists>existing'.
      cross_validate_pair example_collaborators ?a2 (empty_program, ?a1)
        = Return (?failed, existing')
      \<and> cross_validate_shaders example_collaborators False
           [Some \<lparr>Type = MESA_SHADER_VERTEX, ir = [Variable ?a2, Variable ?b],
                   symbols = empty_symbols\<rparr>] (empty_program, [''a'' \<mapsto> ?a1])
        = Return (?failed, [''a'' \<mapsto> existing'])"
    unfolding l u n by blast
  from mismatch_is_logged_and_returns
         [where X = example_collaborators and v = ?d2 and existing = ?d1
            and prog = empty_program]
       h2
  have "\<exists>existing'. cross_validate_pair example_collaborators ?d2 (empty_program, ?d1)
      = Continue (foldl linker_error empty_program (frag_depth_reports ?d2 ?d1), existing')"
    by blast
  then have r2: "\<exists>existing'. cross_validate_pair example_collaborators ?d2 (empty_program, ?d1)
      = Continue (?logged, existing')"
    unfolding f .
  from h1 r1 h2 r2 show ?thesis by (intro conjI)
qed

text \<open>
  Claim C1 as stated says that validation goes on without an early return except on a type
  mismatch. Two shaders declare \<open>a\<close> with the explicit locations 1 and 2 and \<open>b\<close> with the
  types \<open>float\<close> and \<open>int\<close>: the pair for \<open>a\<close> has equal types and the validator returns on
  it, so the type mismatch of \<open>b\<close> is not examined and the log holds the one error for \<open>a\<close>.
\<close>

theorem location_mismatch_returns_early_counterexample:
  "returned (cross_validate_pair example_collaborators
      ((plain_variable ''a'' (glsl_basic ''vec4'') ir_var_shader_in)\<lparr>explicit_location := True, location := 2\<rparr>)
      (empty_program, ((plain_variable ''a'' (glsl_basic ''vec4'') ir_var_shader_in)\<lparr>explicit_location := True, location := 1\<rparr>)))
   \<and> \<not> type_mismatch
      ((plain_variable ''a'' (glsl_basic ''vec4'') ir_var_shader_in)\<lparr>explicit_location := True, location := 2\<rparr>)
      ((plain_variable ''a'' (glsl_basic ''vec4'') ir_var_shader_in)\<lparr>explicit_location := True, location := 1\<rparr>)
   \<and> type_mismatch (plain_variable ''b'' (glsl_basic ''int'') ir_var_uniform) (plain_variable ''b'' (glsl_basic ''float'') ir_var_uniform)
   \<and> InfoLog (cross_validate_globals example_collaborators empty_program
        [Some \<lparr>Type = MESA_SHADER_VERTEX, ir = [Variable ((plain_variable ''a'' (glsl_basic ''vec4'') ir_var_shader_in)\<lparr>explicit_location := True, location := 1\<rparr>), Variable (plain_variable ''b'' (glsl_basic ''float'') ir_var_uniform)], symbols = empty_symbols\<rparr>,
         Some \<lparr>Type = MESA_SHADER_VERTEX, ir = [Variable ((plain_variable ''a'' (glsl_basic ''vec4'') ir_var_shader_in)\<lparr>explicit_location := True, location := 2\<rparr>), Variable (plain_variable ''b'' (glsl_basic ''int'') ir_var_uniform)], symbols = empty_symbols\<rparr>] False)
       = ''error: explicit locations for shader input `a' have differing values\<newline>''"
  by (simp add: cross_validate_globals_def cross_validate_globals_run_def
      cross_validate_pair_def validate_type_def validate_location_def type_mismatch_def
      linker_error_def example_defs)

text \<open>
  Claim C4 says that a declaration with a non-constant initializer that meets any other
  declaration with an initializer is a link error. The code records the error when the
  declaration with the constant initializer is seen first. In the other order the
  first-seen declaration, whose initializer is not constant, adopts the constant
  initializer of the later one before the check for non-constant initializers runs, the
  check then finds two constant initializers, and the link goes on with no error.
\<close>

theorem non_constant_initializer_check_depends_on_order:
  "cross_validate_globals example_collaborators empty_program
        [Some \<lparr>Type = MESA_SHADER_VERTEX, ir = [Variable ((plain_variable ''scale'' (glsl_basic ''float'') ir_var_auto)\<lparr>has_initializer := True\<rparr>)], symbols = empty_symbols\<rparr>,
         Some \<lparr>Type = MESA_SHADER_VERTEX, ir = [Variable ((plain_variable ''scale'' (glsl_basic ''float'') ir_var_auto)\<lparr>has_initializer := True, constant_initializer := Some (IrConstant (glsl_basic ''float'') [2])\<rparr>)], symbols = empty_symbols\<rparr>] False
     = empty_program
   \<and> InfoLog (cross_validate_globals example_collaborators empty_program
        [Some \<lparr>Type = MESA_SHADER_VERTEX, ir = [Variable ((plain_variable ''scale'' (glsl_basic ''float'') ir_var_auto)\<lparr>has_initializer := True, constant_initializer := Some (IrConstant (glsl_basic ''float'') [2])\<rparr>)], symbols = empty_symbols\<rparr>,
         Some \<lparr>Type = MESA_SHADER_VERTEX, ir = [Variable ((plain_variable ''scale'' (glsl_basic ''float'') ir_var_auto)\<lparr>has_initializer := True\<rparr>)], symbols = empty_symbols\<rparr>] False)
     = ''error: shared global variable `scale' has multiple non-constant initializers.\<newline>''"
  by (simp add: cross_validate_globals_def cross_validate_globals_run_def
      cross_validate_pair_def validate_type_def validate_location_def validate_binding_def
      validate_atomic_offset_def validate_frag_depth_def validate_constant_initializer_def
      validate_has_initializer_def validate_invariant_def validate_centroid_def
      linker_error_def example_defs)

section \<open>Properties of the intrastage merger\<close>

lemma check_signatures_eq:
  "check_signatures prog (function_name f) other sigs =
     (if \<exists>sig \<in> set sigs. is_defined sig \<and> \<not> is_builtin sig
           \<and> (case exact_matching_signature other (parameters sig) of
                 None \<Rightarrow> False
               | Some other_sig \<Rightarrow> is_defined other_sig \<and> \<not> is_builtin other_sig)
      then Return (linker_error prog (''function `'' @ function_name f @ ''' is multiply defined''))
      else Continue prog)"
  by (induction sigs) (auto split: option.splits)

lemma check_later_shaders_eq:
  "check_later_shaders prog f later =
     (if \<exists>shader_j \<in> set later. function_clashes f shader_j
      then Return (linker_error prog (''function `'' @ function_name f @ ''' is multiply defined''))
      else Continue prog)"
proof (induction later)
  case Nil
  show ?case by simp
next
  case (Cons sh rest)
  have c: "function_clashes f sh \<longleftrightarrow>
      (case get_function (symbols sh) (function_name f) of
         None \<Rightarrow> False
       | Some other \<Rightarrow>
           check_signatures prog (function_name f) other (signatures f)
             = Return (linker_error prog (''function `'' @ function_name f @ ''' is multiply defined'')))"
    by (auto simp: function_clashes_def defines_signature_def check_signatures_eq
        split: option.splits)
  show ?case
  proof (cases "get_function (symbols sh) (function_name f)")
    case None
    with c Cons show ?thesis by simp
  next
    case (Some other)
    show ?thesis
    proof (cases "function_clashes f sh")
      case True
      with c Some show ?thesis by simp
    next
      case False
      with c Some have "check_signatures prog (function_name f) other (signatures f) = Continue prog"
        by (simp add: check_signatures_eq split: if_splits)
      with False Some Cons show ?thesis by simp
    qed
  qed
qed

lemma check_functions_result:
  "(\<exists>f. check_functions prog nodes later
          = Return (linker_error prog (''function `'' @ function_name f @ ''' is multiply defined''))
        \<and> (\<exists>node \<in> set nodes. as_function node = Some f)
        \<and> (\<exists>shader_j \<in> set later. function_clashes f shader_j))
   \<or> (check_functions prog nodes later = Continue prog
       \<and> (\<forall>node \<in> set nodes. \<forall>f. as_function node = Some f \<longrightarrow>
             \<not> (\<exists>shader_j \<in> set later. function_clashes f shader_j)))"
proof (induction nodes)
  case Nil
  show ?case by simp
next
  case (Cons node rest)
  show ?case
  proof (cases "as_function node")
    case None
    with Cons show ?thesis by auto
  next
    case (Some f)
    show ?thesis
    proof (cases "\<exists>shader_j \<in> set later. function_clashes f shader_j")
      case True
      with Some show ?thesis by (auto simp: check_later_shaders_eq)
    next
      case False
      with Some have "check_functions prog (node # rest) later = check_functions prog rest later"
        by (simp add: check_later_shaders_eq)
      with Cons False Some show ?thesis by auto
    qed
  qed
qed

lemma check_multiply_defined_result:
  "(\<exists>f_name. check_multiply_defined prog shaders
          = Return (linker_error prog (''function `'' @ f_name @ ''' is multiply defined''))
        \<and> multiply_defined shaders f_name)
   \<or> (check_multiply_defined prog shaders = Continue prog
       \<and> (\<forall>f_name. \<not> multiply_defined shaders f_name))"
proof (induction prog shaders rule: check_multiply_defined.induct)
  case (1 prog)
  show ?case by simp
next
  case (2 prog shader)
  show ?case by simp
next
  case (3 prog shader_i shader_j rest)
  let ?later = "shader_j # rest"
  from check_functions_result [of prog "ir shader_i" ?later]
  show ?case
  proof (elim disjE exE conjE bexE)
    fix f node sh
    assume r: "check_functions prog (ir shader_i) ?later
          = Return (linker_error prog (''function `'' @ function_name f @ ''' is multiply defined''))"
      and n: "node \<in> set (ir shader_i)" "as_function node = Some f"
      and c: "sh \<in> set ?later" "function_clashes f sh"
    from n c have "units_clash shader_i sh (function_name f)"
      unfolding units_clash_def by (auto intro!: bexI [of _ node])
    with c(1) have "multiply_defined (shader_i # ?later) (function_name f)"
      by auto
    with r show ?thesis by auto
  next
    assume r: "check_functions prog (ir shader_i) ?later = Continue prog"
      and n: "\<forall>node \<in> set (ir shader_i). \<forall>f. as_function node = Some f \<longrightarrow>
             \<not> (\<exists>sh \<in> set ?later. function_clashes f sh)"
    from n have nc: "\<And>sh f_name. sh \<in> set ?later \<Longrightarrow> \<not> units_clash shader_i sh f_name"
      unfolding units_clash_def by (auto split: option.splits)
    have m: "\<And>f_name. multiply_defined (shader_i # ?later) f_name = multiply_defined ?later f_name"
      using nc by auto
    from "3.IH" [OF r] r show ?thesis
      unfolding m by simp
  qed
qed











section \<open>Properties of the location assignment\<close>













lemma locations_invalidated_Cons:
  "locations_invalidated (node # rest) \<longleftrightarrow>
     (case as_variable node of
        Some v \<Rightarrow> explicit_location v \<or> location v = - 1
      | None \<Rightarrow> True) \<and> locations_invalidated rest"
  by (simp add: locations_invalidated_def)

lemma link_invalidate_variable_locations_invalidated:
  "locations_invalidated (link_invalidate_variable_locations instructions)"
proof (induction instructions)
  case Nil
  show ?case by (simp add: locations_invalidated_def)
next
  case (Cons node rest)
  then show ?case
    by (cases "as_variable node")
       (auto simp: locations_invalidated_Cons invalidate_variable_def Let_def)
qed


lemma apply_binding_Return:
  "apply_binding X t m k v st = Inr (Return (st1, v1)) \<Longrightarrow> \<not> LinkStatus (program st1)"
  by (auto simp: apply_binding_def Let_def linker_error_def split: if_splits option.splits)

lemma place_or_collect_Return:
  "place_or_collect X t k v1 st1 = Inr (Return st2) \<Longrightarrow> \<not> LinkStatus (program st2)"
  by (auto simp: place_or_collect_def Let_def linker_error_def split: if_splits)

lemma scan_variables_Return:
  "scan_variables X t m k rest st = Inr (Return st') \<Longrightarrow> \<not> LinkStatus (program st')"
proof (induction rest arbitrary: k st)
  case Nil
  then show ?case by simp
next
  case (Cons node rest)
  show ?case
  proof (cases "as_variable node")
    case None
    with Cons show ?thesis by simp
  next
    case (Some v)
    show ?thesis
    proof (cases "mode v = direction t")
      case False
      with Cons Some show ?thesis by simp
    next
      case True
      from Cons.prems Some True show ?thesis
        by (auto split: sum.splits flow.splits
            dest: apply_binding_Return place_or_collect_Return Cons.IH)
    qed
  qed
qed


















lemma run_inputs_linker_error: "run_inputs t (linker_error p msg) = run_inputs t p"
  by (simp add: run_inputs_def linker_error_def)

lemma run_inputs_set_variable:
  "run_inputs t p1 = run_inputs t p2 \<Longrightarrow>
     run_inputs t (set_variable p1 t k v) = run_inputs t (set_variable p2 t k v)"
  by (auto simp: run_inputs_def set_variable_def split: option.splits)

lemma run_inputs_variable_at:
  "run_inputs t p1 = run_inputs t p2 \<Longrightarrow> variable_at p1 t k = variable_at p2 t k"
  by (simp add: run_inputs_def variable_at_def)

lemma apply_binding_same_inputs:
  assumes "scan_inputs t st1 = scan_inputs t st2"
  shows "map_sum id (map_flow (\<lambda>(st, v). (scan_inputs t st, v))) (apply_binding X t m k v st1)
       = map_sum id (map_flow (\<lambda>(st, v). (scan_inputs t st, v))) (apply_binding X t m k v st2)"
proof -
  from assms have r: "run_inputs t (program st1) = run_inputs t (program st2)"
    and u: "used_locations st1 = used_locations st2" and a: "to_assign st1 = to_assign st2"
    by (simp_all add: scan_inputs_def)
  from r have b: "AttributeBindings (program st1) = AttributeBindings (program st2)"
    "FragDataBindings (program st1) = FragDataBindings (program st2)"
    "FragDataIndexBindings (program st1) = FragDataIndexBindings (program st2)"
    by (simp_all add: run_inputs_def)
  show ?thesis
    unfolding apply_binding_def Let_def b
    using run_inputs_set_variable [OF r] u a r
    by (auto simp: scan_inputs_def run_inputs_linker_error split: option.splits)
qed

lemma place_or_collect_same_inputs:
  assumes "scan_inputs t st1 = scan_inputs t st2"
  shows "map_sum id (map_flow (scan_inputs t)) (place_or_collect X t k v st1)
       = map_sum id (map_flow (scan_inputs t)) (place_or_collect X t k v st2)"
  using assms
  by (simp add: place_or_collect_def Let_def scan_inputs_def run_inputs_linker_error)

lemma same_results_cases:
  assumes "map_sum id (map_flow f) r1 = map_sum id (map_flow f) r2"
  obtains (fault) e where "r1 = Inl e" "r2 = Inl e"
    | (return) a b where "r1 = Inr (Return a)" "r2 = Inr (Return b)" "f a = f b"
    | (continue) a b where "r1 = Inr (Continue a)" "r2 = Inr (Continue b)" "f a = f b"
proof (cases r1)
  case (Inl e)
  with assms have "r2 = Inl e" by (cases r2) auto
  with Inl fault show ?thesis by blast
next
  case (Inr x)
  with assms obtain y where y: "r2 = Inr y" "map_flow f x = map_flow f y"
    by (cases r2) auto
  show ?thesis
  proof (cases x)
    case (Continue a)
    with y(2) obtain b where "y = Continue b" "f a = f b" by (cases y) auto
    with Continue Inr y(1) continue show ?thesis by blast
  next
    case (Return a)
    with y(2) obtain b where "y = Return b" "f a = f b" by (cases y) auto
    with Return Inr y(1) return show ?thesis by blast
  qed
qed

lemma scan_variables_same_inputs:
  assumes "scan_inputs t st1 = scan_inputs t st2"
  shows "map_sum id (map_flow (scan_inputs t)) (scan_variables X t m k rest st1)
       = map_sum id (map_flow (scan_inputs t)) (scan_variables X t m k rest st2)"
  using assms
proof (induction rest arbitrary: k st1 st2)
  case Nil
  then show ?case by simp
next
  case (Cons node rest)
  show ?case
  proof (cases "as_variable node")
    case None
    with Cons.IH [OF Cons.prems] show ?thesis by simp
  next
    case (Some v)
    show ?thesis
    proof (cases "mode v = direction t")
      case False
      with Some Cons.IH [OF Cons.prems] show ?thesis by simp
    next
      case True
      from apply_binding_same_inputs [OF Cons.prems, of X m k v]
      show ?thesis
      proof (cases rule: same_results_cases)
        case (fault e)
        with Some True show ?thesis by simp
      next
        case (return a b)
        with Some True show ?thesis by (cases a; cases b) simp
      next
        case (continue a b)
        obtain a1 v1 where a: "a = (a1, v1)" by (cases a)
        obtain b1 w1 where b: "b = (b1, w1)" by (cases b)
        from continue(3) a b have eq: "scan_inputs t a1 = scan_inputs t b1" "w1 = v1" by simp_all
        from place_or_collect_same_inputs [OF eq(1), of X k v1]
        show ?thesis
        proof (cases rule: same_results_cases)
          case (fault e)
          with continue(1,2) a b eq(2) Some True show ?thesis by simp
        next
          case (return c d)
          with continue(1,2) a b eq(2) Some True show ?thesis by simp
        next
          case (continue c d) note pc = this
          from Cons.IH [OF pc(3), of "Suc k"] pc(1,2)
            \<open>apply_binding X t m k v st1 = Inr (Continue a)\<close>
            \<open>apply_binding X t m k v st2 = Inr (Continue b)\<close> a b eq(2) Some True
          show ?thesis by simp
        qed
      qed
    qed
  qed
qed

lemma assign_loop_same_inputs:
  assumes "run_inputs t p1 = run_inputs t p2"
  shows "(case assign_loop X t entries (p1, u) of (p, ok) \<Rightarrow> (run_inputs t p, ok))
       = (case assign_loop X t entries (p2, u) of (p, ok) \<Rightarrow> (run_inputs t p, ok))"
  using assms
proof (induction entries arbitrary: p1 p2 u)
  case Nil
  then show ?case by simp
next
  case (Cons a rest)
  let ?loc = "find_available_slots u (attr_slots a)"
  note va = run_inputs_variable_at [OF Cons.prems, of "attr_var a"]
  show ?case
  proof (cases "?loc < 0")
    case True
    with Cons.prems show ?thesis
      by (simp add: Let_def run_inputs_linker_error)
  next
    case False
    show ?thesis
    proof (cases "variable_at p2 t (attr_var a)")
      case None
      with va False Cons.IH [OF Cons.prems] show ?thesis by (simp add: Let_def)
    next
      case (Some v)
      with va False
        Cons.IH [OF run_inputs_set_variable [OF Cons.prems]]
      show ?thesis by (simp add: Let_def)
    qed
  qed
qed

text \<open>
  Claim C9. Two runs of the attribute/color location assignment that start from programs
  with the same shader for the target stage (the same variables in the same declaration
  order, with the same types and explicit locations) and the same binding tables of the
  application, with the same slot budget, end alike: the same fault, or the same success
  flag and the same shader, every variable with the identical location. Whatever else the
  two programs hold (the log, the status, the other stages) has no influence.
\<close>

theorem location_assignment_deterministic:
  assumes "run_inputs t prog1 = run_inputs t prog2"
  shows "run_outcome t (assign_attribute_or_color_locations X prog1 t max_index)
       = run_outcome t (assign_attribute_or_color_locations X prog2 t max_index)"
proof (cases "t \<noteq> MESA_SHADER_VERTEX \<and> t \<noteq> MESA_SHADER_FRAGMENT")
  case True
  then show ?thesis
    by (simp add: assign_attribute_or_color_locations_def run_outcome_def)
next
  case False note target = this
  from assms have ls: "LinkedShaders prog1 t = LinkedShaders prog2 t"
    by (simp add: run_inputs_def)
  show ?thesis
  proof (cases "LinkedShaders prog2 t")
    case None
    with ls target show ?thesis
      by (auto simp: assign_attribute_or_color_locations_def run_outcome_def Let_def)
  next
    case (Some sh)
    let ?init = "(if 32 \<le> max_index then NOT 0
                  else NOT (push_bit (unat max_index) (1 :: 32 word) - 1))"
    let ?st1 = "\<lparr>program = prog1, used_locations = ?init, to_assign = []\<rparr>"
    let ?st2 = "\<lparr>program = prog2, used_locations = ?init, to_assign = []\<rparr>"
    have "scan_inputs t ?st1 = scan_inputs t ?st2"
      using assms by (simp add: scan_inputs_def)
    from scan_variables_same_inputs [OF this, of X max_index 0 "ir sh"]
    show ?thesis
    proof (cases rule: same_results_cases)
      case (fault e)
      with ls Some target show ?thesis
        by (auto simp: assign_attribute_or_color_locations_def run_outcome_def Let_def)
    next
      case (return a b)
      with ls Some target show ?thesis
        by (auto simp: assign_attribute_or_color_locations_def run_outcome_def Let_def
            scan_inputs_def run_inputs_def)
    next
      case (continue a b)
      from continue(3) have r: "run_inputs t (program a) = run_inputs t (program b)"
        and u: "used_locations a = used_locations b" and ta: "to_assign a = to_assign b"
        by (simp_all add: scan_inputs_def)
      from r have l: "LinkedShaders (program a) t = LinkedShaders (program b) t"
        by (simp add: run_inputs_def)
      show ?thesis
      proof (cases "to_assign b = []")
        case True
        with continue(1,2) ta l ls Some target show ?thesis
          by (auto simp: assign_attribute_or_color_locations_def run_outcome_def Let_def)
      next
        case False
        have "(case assign_loop X t entries (program a, u') of
                  (p, ok) \<Rightarrow> (LinkedShaders p t, ok))
              = (case assign_loop X t entries (program b, u') of
                  (p, ok) \<Rightarrow> (LinkedShaders p t, ok))" for entries u'
          using assign_loop_same_inputs [OF r, of X entries u']
          by (auto simp: run_inputs_def split: prod.splits)
        note al = this
        let ?res = "\<lambda>st. (if t = MESA_SHADER_VERTEX
                           \<and> (case LinkedShaders (program st) t of
                                 Some sh' \<Rightarrow> find_deref_visitor ''gl_Vertex'' (ir sh')
                               | None \<Rightarrow> False)
                        then used_locations st OR push_bit 0 (1 :: 32 word)
                        else used_locations st)"
        let ?sorted = "qsort X temp_attr_compare (to_assign b)"
        have res: "?res a = ?res b" by (simp only: l u)
        define reserved where "reserved = ?res b"
        have A: "assign_attribute_or_color_locations X prog1 t max_index
                   = Inr (assign_loop X t ?sorted (program a, reserved))"
          unfolding reserved_def res [symmetric]
          using continue(1) ta ls Some target False
          by (simp add: assign_attribute_or_color_locations_def Let_def del: push_bit_of_1)
        have B: "assign_attribute_or_color_locations X prog2 t max_index
                   = Inr (assign_loop X t ?sorted (program b, reserved))"
          unfolding reserved_def
          using continue(2) Some target False
          by (simp add: assign_attribute_or_color_locations_def Let_def del: push_bit_of_1)
        from al [of ?sorted reserved] show ?thesis
          unfolding A B by (simp add: run_outcome_def split: prod.splits)
      qed
    qed
  qed
qed

theorem location_assignment_deterministic_witness:
  "run_inputs MESA_SHADER_VERTEX (vertex_program (attribute_declarations 3))
     = run_inputs MESA_SHADER_VERTEX
         ((vertex_program (attribute_declarations 3))
            \<lparr>InfoLog := ''error: earlier'', LinkStatus := False, Version := 330\<rparr>)
   \<and> run_outcome MESA_SHADER_VERTEX
        (assign_attribute_or_color_locations example_collaborators
           (vertex_program (attribute_declarations 3)) MESA_SHADER_VERTEX 16)
     = run_outcome MESA_SHADER_VERTEX
        (assign_attribute_or_color_locations example_collaborators
           ((vertex_program (attribute_declarations 3))
              \<lparr>InfoLog := ''error: earlier'', LinkStatus := False, Version := 330\<rparr>)
           MESA_SHADER_VERTEX 16)"
proof -
  have h: "run_inputs MESA_SHADER_VERTEX (vertex_program (attribute_declarations 3))
     = run_inputs MESA_SHADER_VERTEX
         ((vertex_program (attribute_declarations 3))
            \<lparr>InfoLog := ''error: earlier'', LinkStatus := False, Version := 330\<rparr>)"
    by (simp add: run_inputs_def vertex_program_def)
  from location_assignment_deterministic [OF h, of example_collaborators 16] h
  show ?thesis by simp
qed

section \<open>The link status and the log across the operations of the linker\<close>

lemma logs_events_refl: "logs_events p p"
  unfolding logs_events_def by (rule exI [of _ "[]"]) (simp add: log_events_def)

lemma logs_events_same:
  "InfoLog p' = InfoLog p \<Longrightarrow> LinkStatus p' = LinkStatus p \<Longrightarrow> logs_events p p'"
  unfolding logs_events_def by (rule exI [of _ "[]"]) (simp add: log_events_def)

lemma log_events_fields:
  "InfoLog p' = InfoLog p \<Longrightarrow> LinkStatus p' = LinkStatus p \<Longrightarrow>
     InfoLog (log_events p' evs) = InfoLog (log_events p evs)
     \<and> LinkStatus (log_events p' evs) = LinkStatus (log_events p evs)"
  by (simp add: log_events_InfoLog log_events_LinkStatus)

lemma logs_events_trans:
  assumes "logs_events p p1" and "logs_events p1 p2"
  shows "logs_events p p2"
proof -
  from assms(1) obtain e1 where 1: "InfoLog p1 = InfoLog (log_events p e1)"
    "LinkStatus p1 = LinkStatus (log_events p e1)" unfolding logs_events_def by blast
  from assms(2) obtain e2 where 2: "InfoLog p2 = InfoLog (log_events p1 e2)"
    "LinkStatus p2 = LinkStatus (log_events p1 e2)" unfolding logs_events_def by blast
  from log_events_fields [OF 1, of e2] 2
  have "InfoLog p2 = InfoLog (log_events p (e1 @ e2))
     \<and> LinkStatus p2 = LinkStatus (log_events p (e1 @ e2))"
    by (simp add: log_events_def)
  then show ?thesis unfolding logs_events_def by blast
qed

lemma logs_events_linker_error: "logs_events p (linker_error p msg)"
  unfolding logs_events_def by (rule exI [of _ "[Error msg]"]) (simp add: log_events_def)

lemma logs_events_linker_warning: "logs_events p (linker_warning p msg)"
  unfolding logs_events_def by (rule exI [of _ "[Warning msg]"]) (simp add: log_events_def)

lemma logs_events_error_after:
  "logs_events p p1 \<Longrightarrow> logs_events p (linker_error p1 msg)"
  by (rule logs_events_trans [OF _ logs_events_linker_error])

lemma validate_vertex_shader_executable_logs:
  "logs_events p (validate_vertex_shader_executable p shader)"
proof (cases shader)
  case None
  then show ?thesis by (simp add: validate_vertex_shader_executable_def logs_events_refl)
next
  case (Some sh)
  have a: "logs_events p (fst (analyze_clip_usage ''vertex'' p sh u))" for u
    by (simp add: analyze_clip_usage_def Let_def logs_events_refl logs_events_linker_error)
  have b: "logs_events (fst r) (case r of (prog', uses, array_size) \<Rightarrow>
             prog'\<lparr>Vert_UsesClipDistance := uses, Vert_ClipDistanceArraySize := array_size\<rparr>)"
    for r :: "gl_shader_program \<times> bool \<times> nat"
    by (cases r) (simp add: logs_events_same)
  show ?thesis
    using Some logs_events_trans [OF a b]
    by (simp add: validate_vertex_shader_executable_def logs_events_linker_error)
qed

lemma steps_log_events:
  "logs_events p (fst (flow_state (validate_type X v (p, e))))"
  "logs_events p (fst (flow_state (validate_location X v (p, e))))"
  "logs_events p (fst (flow_state (validate_binding X v (p, e))))"
  "logs_events p (fst (flow_state (validate_atomic_offset X v (p, e))))"
  "logs_events p (fst (flow_state (validate_frag_depth v (p, e))))"
  "logs_events p (fst (flow_state (validate_constant_initializer X v (p, e))))"
  "logs_events p (fst (flow_state (validate_has_initializer v (p, e))))"
  "logs_events p (fst (flow_state (validate_invariant X v (p, e))))"
  "logs_events p (fst (flow_state (validate_centroid X v (p, e))))"
  by (simp_all add: validate_type_def validate_location_def validate_binding_def
      validate_atomic_offset_def validate_frag_depth_def validate_constant_initializer_def
      validate_has_initializer_def validate_invariant_def validate_centroid_def Let_def
      logs_events_refl logs_events_linker_error logs_events_error_after split: option.splits)

lemma and_then_logs_events:
  assumes "logs_events p (fst (flow_state r))"
    and "\<And>p1 e. logs_events p1 (fst (flow_state (f (p1, e))))"
  shows "logs_events p (fst (flow_state (and_then r f)))"
proof (cases r)
  case (Return s)
  with assms(1) show ?thesis by simp
next
  case (Continue s)
  with assms(1) assms(2) [of "fst s" "snd s"] show ?thesis
    by (auto intro: logs_events_trans)
qed

lemma cross_validate_pair_logs:
  "logs_events p (fst (flow_state (cross_validate_pair X v (p, e))))"
  unfolding cross_validate_pair_def
  by (intro and_then_logs_events steps_log_events)

lemma cross_validate_ir_logs:
  "logs_events (fst s) (fst (flow_state (cross_validate_ir X uo nodes s)))"
proof (induction nodes arbitrary: s)
  case Nil
  show ?case by (simp add: logs_events_refl)
next
  case (Cons node rest)
  show ?case
  proof (cases "as_variable node")
    case None
    with Cons show ?thesis by simp
  next
    case (Some v)
    show ?thesis
    proof (cases "(uo \<and> mode v \<noteq> ir_var_uniform) \<or> mode v = ir_var_temporary")
      case True
      with Some have "cross_validate_ir X uo (node # rest) s = cross_validate_ir X uo rest s"
        by auto
      with Cons show ?thesis by simp
    next
      case False
      show ?thesis
      proof (cases "snd s (name v)")
        case None
        with Some False Cons [of "(fst s, (snd s)(name v \<mapsto> v))"] show ?thesis by auto
      next
        case (Some existing) note ex = this
        note pl = cross_validate_pair_logs [of "fst s" X v existing]
        show ?thesis
        proof (cases "cross_validate_pair X v (fst s, existing)")
          case (Return st)
          with pl ex \<open>as_variable node = Some v\<close> False show ?thesis
            by (cases st) auto
        next
          case (Continue st)
          obtain p' e' where st: "st = (p', e')" by (cases st)
          from pl Continue st have 1: "logs_events (fst s) p'" by simp
          from Cons [of "(p', (snd s)(name v \<mapsto> e'))"]
          have 2: "logs_events p' (fst (flow_state (cross_validate_ir X uo rest
                      (p', (snd s)(name v \<mapsto> e')))))" by simp
          from logs_events_trans [OF 1 2] Continue st ex \<open>as_variable node = Some v\<close> False
          show ?thesis by auto
        qed
      qed
    qed
  qed
qed

lemma cross_validate_shaders_logs:
  "logs_events (fst s) (fst (flow_state (cross_validate_shaders X uo shaders s)))"
proof (induction shaders arbitrary: s)
  case Nil
  show ?case by (simp add: logs_events_refl)
next
  case (Cons sh rest)
  show ?case
  proof (cases sh)
    case None
    with Cons show ?thesis by simp
  next
    case (Some shader)
    note 1 = cross_validate_ir_logs [of s X uo "ir shader"]
    show ?thesis
    proof (cases "cross_validate_ir X uo (ir shader) s")
      case (Return s1)
      with 1 Some show ?thesis by simp
    next
      case (Continue s1)
      with 1 have "logs_events (fst s) (fst s1)" by simp
      from logs_events_trans [OF this Cons [of s1]] Some Continue show ?thesis by simp
    qed
  qed
qed

lemma cross_validate_globals_logs:
  "logs_events p (cross_validate_globals X p shader_list uniforms_only)"
  using cross_validate_shaders_logs [of "(p, Map.empty)" X uniforms_only shader_list]
  by (simp add: cross_validate_globals_def cross_validate_globals_run_def)

lemma check_multiply_defined_logs:
  "logs_events p (flow_state (check_multiply_defined p shaders))"
  using check_multiply_defined_result [of p shaders]
  by (auto simp: logs_events_refl logs_events_linker_error)

lemma set_variable_log:
  "InfoLog (set_variable p t k v) = InfoLog p" "LinkStatus (set_variable p t k v) = LinkStatus p"
  by (simp_all add: set_variable_def split: option.splits)

lemma apply_binding_logs:
  "apply_binding X t m k v st = Inr r \<Longrightarrow>
     logs_events (program st) (program (fst (flow_state r)))"
  by (auto simp: apply_binding_def Let_def logs_events_refl logs_events_linker_error
      logs_events_same set_variable_log split: if_splits option.splits)

lemma place_or_collect_logs:
  "place_or_collect X t k v st = Inr r \<Longrightarrow> logs_events (program st) (program (flow_state r))"
  by (auto simp: place_or_collect_def Let_def logs_events_refl logs_events_linker_error
      split: if_splits)

lemma scan_variables_logs:
  "scan_variables X t m k rest st = Inr r \<Longrightarrow>
     logs_events (program st) (program (flow_state r))"
proof (induction rest arbitrary: k st)
  case Nil
  then show ?case by (auto simp: logs_events_refl)
next
  case (Cons node rest)
  show ?case
  proof (cases "as_variable node")
    case None
    with Cons show ?thesis by simp
  next
    case (Some v)
    show ?thesis
    proof (cases "mode v = direction t")
      case False
      with Cons Some show ?thesis by simp
    next
      case True
      show ?thesis
      proof (cases "apply_binding X t m k v st")
        case (Inl f)
        with Cons.prems Some True show ?thesis by simp
      next
        case (Inr r1) note abr = this
        note 1 = apply_binding_logs [OF abr]
        show ?thesis
        proof (cases r1)
          case (Return s)
          with abr 1 Cons.prems Some True show ?thesis by (cases s) auto
        next
          case (Continue s) note rc = this
          obtain st1 v1 where s: "s = (st1, v1)" by (cases s)
          from 1 rc s have l1: "logs_events (program st) (program st1)" by simp
          show ?thesis
          proof (cases "place_or_collect X t k v1 st1")
            case (Inl f)
            with abr rc s Cons.prems Some True show ?thesis by simp
          next
            case (Inr r2) note pcr = this
            note 2 = place_or_collect_logs [OF pcr]
            show ?thesis
            proof (cases r2)
              case (Return st2)
              with abr rc s pcr Cons.prems Some True have "r = Return st2" by simp
              with logs_events_trans [OF l1 2] Return show ?thesis by simp
            next
              case (Continue st2)
              with abr rc s pcr Cons.prems Some True
              have "scan_variables X t m (Suc k) rest st2 = Inr r" by simp
              from Cons.IH [OF this] logs_events_trans [OF l1 2] Continue
              show ?thesis by (auto intro: logs_events_trans)
            qed
          qed
        qed
      qed
    qed
  qed
qed

lemma assign_loop_logs: "logs_events (fst s) (fst (assign_loop X t entries s))"
proof (induction entries arbitrary: s)
  case Nil
  show ?case by (simp add: logs_events_refl)
next
  case (Cons a rest)
  let ?next = "(case variable_at (fst s) t (attr_var a) of
                 Some v \<Rightarrow>
                   set_variable (fst s) t (attr_var a)
                     (v\<lparr>location := generic_base X t + find_available_slots (snd s) (attr_slots a),
                        is_unmatched_generic_inout := False\<rparr>)
               | None \<Rightarrow> fst s)"
  have 1: "logs_events (fst s) ?next"
    by (simp add: logs_events_same logs_events_refl set_variable_log split: option.splits)
  show ?case
  proof (cases "find_available_slots (snd s) (attr_slots a) < 0")
    case True
    then show ?thesis by (simp add: Let_def logs_events_linker_error)
  next
    case False
    from Cons [of "(?next, snd s OR push_bit (nat (find_available_slots (snd s) (attr_slots a)))
                     (push_bit (unat (attr_slots a)) (1 :: 32 word) - 1))"]
    have 2: "logs_events ?next (fst (assign_loop X t rest (?next,
               snd s OR push_bit (nat (find_available_slots (snd s) (attr_slots a)))
                     (push_bit (unat (attr_slots a)) (1 :: 32 word) - 1))))"
      by simp
    from logs_events_trans [OF 1 2] False show ?thesis
      by (simp add: Let_def del: push_bit_of_1)
  qed
qed

lemma assign_attribute_or_color_locations_logs:
  assumes "assign_attribute_or_color_locations X p t m = Inr (p', ok)"
  shows "logs_events p p'"
proof (cases "LinkedShaders p t")
  case None
  with assms show ?thesis
    by (auto simp: assign_attribute_or_color_locations_def Let_def logs_events_refl
        split: if_splits)
next
  case (Some sh)
  let ?init = "(if 32 \<le> m then NOT 0 else NOT (push_bit (unat m) (1 :: 32 word) - 1))"
  let ?st = "\<lparr>program = p, used_locations = ?init, to_assign = []\<rparr>"
  show ?thesis
  proof (cases "scan_variables X t m 0 (ir sh) ?st")
    case (Inl f)
    with assms Some show ?thesis
      by (auto simp: assign_attribute_or_color_locations_def Let_def split: if_splits)
  next
    case (Inr r)
    from scan_variables_logs [OF Inr] have 1: "logs_events p (program (flow_state r))" by simp
    show ?thesis
    proof (cases r)
      case (Return st)
      with assms Some Inr 1 show ?thesis
        by (auto simp: assign_attribute_or_color_locations_def Let_def split: if_splits)
    next
      case (Continue st)
      with 1 have 2: "logs_events p (program st)" by simp
      have 4: "logs_events p q" if "assign_loop X t' entries (program st, u) = (q, b)"
        for t' entries u q b
        using logs_events_trans [OF 2, of q] assign_loop_logs [of "(program st, u)" X t' entries]
          that
        by simp
      from assms Some Inr Continue 2 show ?thesis
        by (auto simp: assign_attribute_or_color_locations_def Let_def split: if_splits
            dest: 4)
    qed
  qed
qed

text \<open>
  Claim C5. The operations of the linker act on the log and the status as sequences of
  logging events: \<open>linker_error\<close>, \<open>linker_warning\<close>, the validation of the vertex stage,
  the cross-validation of globals, the check for multiply defined functions and the
  location assignment. After the reset of \<open>link_shaders\<close>, whatever sequence of errors and
  warnings has been logged: if \<open>LinkStatus\<close> is false then some error was logged and its
  entry, with the prefix \<open>error: \<close>, is in the log. A status that is false stays false under
  any further events, a warning leaves the status as it is, and the log only grows.
\<close>

theorem link_status_false_implies_error_entry:
  "(logs_events (link_shaders_reset prog) prog' \<and> \<not> LinkStatus prog' \<longrightarrow>
      has_error_entry (InfoLog prog'))
   \<and> (\<not> LinkStatus (log_events (link_shaders_reset prog) evs) \<longrightarrow>
        (\<exists>msg. Error msg \<in> set evs
           \<and> sublist (''error: '' @ msg) (InfoLog (log_events (link_shaders_reset prog) evs))))
   \<and> (logs_events p p' \<and> \<not> LinkStatus p \<longrightarrow> \<not> LinkStatus p')
   \<and> LinkStatus (linker_warning p msg') = LinkStatus p
   \<and> prefix (InfoLog p) (InfoLog (log_events p evs))
   \<and> logs_events p (linker_error p msg')
   \<and> logs_events p (linker_warning p msg')
   \<and> logs_events p (validate_vertex_shader_executable p shader)
   \<and> logs_events p (cross_validate_globals X p shader_list uniforms_only)
   \<and> logs_events p (flow_state (check_multiply_defined p shaders))
   \<and> (assign_attribute_or_color_locations X p t m = Inr (q, ok) \<longrightarrow> logs_events p q)"
proof -
  have entry: "\<exists>msg. Error msg \<in> set es
           \<and> sublist (''error: '' @ msg) (InfoLog (log_events (link_shaders_reset prog) es))"
    if f: "\<not> LinkStatus (log_events (link_shaders_reset prog) es)" for es
  proof -
    from f obtain e where e: "e \<in> set es" "\<forall>m. e \<noteq> Warning m"
      by (auto simp: log_events_LinkStatus link_shaders_reset_def)
    from e(2) obtain msg where "e = Error msg" by (cases e) auto
    with e have m: "Error msg \<in> set es" by simp
    from error_event_in_log [OF m] m show ?thesis by blast
  qed
  have 1: "has_error_entry (InfoLog prog')"
    if l: "logs_events (link_shaders_reset prog) prog'" and f: "\<not> LinkStatus prog'"
  proof -
    from l obtain es where es: "InfoLog prog' = InfoLog (log_events (link_shaders_reset prog) es)"
      "LinkStatus prog' = LinkStatus (log_events (link_shaders_reset prog) es)"
      unfolding logs_events_def by blast
    from entry [of es] f es(2) obtain msg where
      "sublist (''error: '' @ msg) (InfoLog (log_events (link_shaders_reset prog) es))"
      by auto
    with es(1) have b: "sublist (''error: '' @ msg) (InfoLog prog')" by simp
    from sublist_order.order_trans [OF sublist_error_prefix b] show ?thesis
      unfolding has_error_entry_def .
  qed
  have 2: "\<not> LinkStatus p'" if "logs_events p p'" and "\<not> LinkStatus p"
    using that unfolding logs_events_def by (auto simp: log_events_LinkStatus)
  have 3: "LinkStatus (linker_warning p msg') = LinkStatus p"
    by (simp add: linker_warning_def)
  have 4: "prefix (InfoLog p) (InfoLog (log_events p evs))"
    by (simp add: log_events_InfoLog)
  show ?thesis
  proof (intro conjI impI)
    show "has_error_entry (InfoLog prog')"
      if "logs_events (link_shaders_reset prog) prog' \<and> \<not> LinkStatus prog'"
      using that 1 by simp
    show "\<exists>msg. Error msg \<in> set evs
           \<and> sublist (''error: '' @ msg) (InfoLog (log_events (link_shaders_reset prog) evs))"
      if "\<not> LinkStatus (log_events (link_shaders_reset prog) evs)"
      using that by (rule entry)
    show "\<not> LinkStatus p'" if "logs_events p p' \<and> \<not> LinkStatus p"
      using that 2 by simp
    show "LinkStatus (linker_warning p msg') = LinkStatus p" by (rule 3)
    show "prefix (InfoLog p) (InfoLog (log_events p evs))" by (rule 4)
    show "logs_events p (linker_error p msg')" by (rule logs_events_linker_error)
    show "logs_events p (linker_warning p msg')" by (rule logs_events_linker_warning)
    show "logs_events p (validate_vertex_shader_executable p shader)"
      by (rule validate_vertex_shader_executable_logs)
    show "logs_events p (cross_validate_globals X p shader_list uniforms_only)"
      by (rule cross_validate_globals_logs)
    show "logs_events p (flow_state (check_multiply_defined p shaders))"
      by (rule check_multiply_defined_logs)
    show "logs_events p q" if "assign_attribute_or_color_locations X p t m = Inr (q, ok)"
      using that by (rule assign_attribute_or_color_locations_logs)
  qed
qed

theorem link_status_false_implies_error_entry_witness:
  "\<not> LinkStatus (log_events (link_shaders_reset empty_program)
                    [Warning ''w'', Error ''e'', Warning ''v''])
   \<and> has_error_entry (InfoLog (log_events (link_shaders_reset empty_program)
                                  [Warning ''w'', Error ''e'', Warning ''v'']))
   \<and> (\<exists>msg. Error msg \<in> set [Warning ''w'', Error ''e'', Warning ''v'']
          \<and> sublist (''error: '' @ msg)
                (InfoLog (log_events (link_shaders_reset empty_program)
                            [Warning ''w'', Error ''e'', Warning ''v''])))"
proof -
  let ?evs = "[Warning ''w'', Error ''e'', Warning ''v'']"
  let ?p = "log_events (link_shaders_reset empty_program) ?evs"
  have h1: "logs_events (link_shaders_reset empty_program) ?p"
    unfolding logs_events_def by blast
  have h2: "\<not> LinkStatus ?p"
    by (simp add: log_events_def linker_error_def linker_warning_def link_shaders_reset_def)
  note t = link_status_false_implies_error_entry [of empty_program ?p ?evs]
  have a: "has_error_entry (InfoLog ?p)"
    by (rule mp [OF t [THEN conjunct1]]) (rule conjI [OF h1 h2])
  have b: "\<exists>msg. Error msg \<in> set ?evs \<and> sublist (''error: '' @ msg) (InfoLog ?p)"
    by (rule mp [OF t [THEN conjunct2, THEN conjunct1] h2])
  from h2 a b show ?thesis by (intro conjI)
qed

end
